theory Spec2Isabelle
  imports Main "HOL-Library.Word"
begin

section \<open>The Qt collaborators\<close>

text \<open>
  The record/replay code of \<^verbatim>\<open>deviceconnection.cpp\<close> sits on a handful of Qt
  classes. They are represented by what the code observes of them.

  \<^item> \<open>QString\<close> is a character list.
  \<^item> \<open>QDateTime\<close> is a point in time, as a number of milliseconds.
  \<^item> \<open>QVariant\<close> holds what the code stores into one: a string, or the \<open>int\<close> a
    \<open>quint16\<close> is promoted to.
  \<^item> \<open>qWarning()\<close> output is a list of diagnostics, returned beside the result.
\<close>

type_synonym QString = string
type_synonym QDateTime = int

datatype QVariant = VString QString | VInt int

datatype diagnostic =
    AlreadyRegistered QString
  | NoEventClass QString
  | MissingTimestamp QString
  | UnexpectedPayload QString
  | InvalidValue QString QString
  | NoSerialTag

subsection \<open>Numbers and strings\<close>

text \<open>
  \<open>QString::number(n)\<close> in base ten, and in base sixteen with lower-case digits. In a
  base other than ten Qt prints a negative number as the 64-bit unsigned number of the
  same bits.
\<close>

definition digit_char :: "nat \<Rightarrow> char" where
  "digit_char d = (if d < 10 then char_of (48 + d) else char_of (87 + d))"

fun digits_of :: "nat \<Rightarrow> nat \<Rightarrow> QString" where
  "digits_of b n =
     (if b < 2 \<or> n < b then [digit_char n]
      else digits_of b (n div b) @ [digit_char (n mod b)])"

declare digits_of.simps [simp del]

definition QString_number :: "int \<Rightarrow> QString" where
  "QString_number i =
     (if i < 0 then CHR ''-'' # digits_of 10 (nat (- i)) else digits_of 10 (nat i))"

definition QString_number16 :: "int \<Rightarrow> QString" where
  "QString_number16 i = digits_of 16 (nat (if i < 0 then i + 2 ^ 64 else i))"

definition char_toUpper :: "char \<Rightarrow> char" where
  "char_toUpper c =
     (if 97 \<le> (of_char c :: nat) \<and> (of_char c :: nat) \<le> 122
      then char_of ((of_char c :: nat) - 32) else c)"

definition toUpper :: "QString \<Rightarrow> QString" where
  "toUpper s = map char_toUpper s"

text \<open>
  \<open>QString::toUInt(&ok, 0)\<close>, after Qt's documentation: white space at both ends is
  ignored, a plus sign is allowed and a minus sign is not; with base zero the C
  convention picks the base (\<open>0x\<close> sixteen, a leading \<open>0\<close> eight, ten otherwise); every
  character left must be a digit of the base, and the value must fit 32 bits. \<open>None\<close>
  stands for \<open>ok = false\<close>.
\<close>

definition is_space :: "char \<Rightarrow> bool" where
  "is_space c = (c \<in> set [CHR '' '', CHR 0x09, CHR 0x0A, CHR 0x0B, CHR 0x0C, CHR 0x0D])"

definition trimmed :: "QString \<Rightarrow> QString" where
  "trimmed s = rev (dropWhile is_space (rev (dropWhile is_space s)))"

definition digit_value :: "char \<Rightarrow> nat option" where
  "digit_value c =
     (let n = (of_char c :: nat)
      in if 48 \<le> n \<and> n \<le> 57 then Some (n - 48)
         else if 97 \<le> n \<and> n \<le> 122 then Some (n - 87)
         else if 65 \<le> n \<and> n \<le> 90 then Some (n - 55)
         else None)"

fun parse_digits :: "nat \<Rightarrow> nat \<Rightarrow> QString \<Rightarrow> nat option" where
  "parse_digits b acc [] = Some acc"
| "parse_digits b acc (c # cs) =
     (case digit_value c of
        None \<Rightarrow> None
      | Some d \<Rightarrow> if d < b then parse_digits b (acc * b + d) cs else None)"

definition parse_number :: "nat \<Rightarrow> QString \<Rightarrow> nat option" where
  "parse_number b s = (if s = [] then None else parse_digits b 0 s)"

definition QString_toUInt0 :: "QString \<Rightarrow> nat option" where
  "QString_toUInt0 str =
     (let s = trimmed str;
          s = (case s of c # cs \<Rightarrow> if c = CHR ''+'' then cs else s | [] \<Rightarrow> s);
          r = (case s of
                 c # x # cs \<Rightarrow>
                   if c = CHR ''0'' \<and> (x = CHR ''x'' \<or> x = CHR ''X'') then parse_number 16 cs
                   else if c = CHR ''0'' then parse_number 8 s
                   else parse_number 10 s
               | _ \<Rightarrow> parse_number 10 s)
      in case r of
           None \<Rightarrow> None
         | Some n \<Rightarrow> if n < 2 ^ 32 then Some n else None)"

text \<open>The file's own \<open>hex\<close>.\<close>

definition hex :: "int \<Rightarrow> QString" where
  "hex i = ''0x'' @ toUpper (QString_number16 i)"

subsection \<open>The XML stream\<close>

text \<open>
  \<open>QXmlStreamWriter\<close> and \<open>QXmlStreamReader\<close> meet at a stream of tokens: a start
  element with its attributes, an end element, character data. The textual encoding
  between them (escaping, indentation) is Qt's own and is not modelled.
\<close>

datatype token =
    StartElement QString "(QString \<times> QString) list"
  | EndElement
  | Characters QString

text \<open>
  The reader stands on the token it read last (\<open>None\<close> before the first read and at
  the end of the document) and holds the tokens still to come.
\<close>

record QXmlStreamReader =
  token :: "token option"
  input :: "token list"

definition QXmlStreamReader :: "token list \<Rightarrow> QXmlStreamReader" where
  "QXmlStreamReader ts = \<lparr>token = None, input = ts\<rparr>"

definition isStartElement :: "QXmlStreamReader \<Rightarrow> bool" where
  "isStartElement xml = (case token xml of Some (StartElement n a) \<Rightarrow> True | _ \<Rightarrow> False)"

definition atEnd :: "QXmlStreamReader \<Rightarrow> bool" where
  "atEnd xml = (token xml = None \<and> input xml = [])"

definition xml_name :: "QXmlStreamReader \<Rightarrow> QString" where
  "xml_name xml = (case token xml of Some (StartElement n a) \<Rightarrow> n | _ \<Rightarrow> [])"

definition attributes :: "QXmlStreamReader \<Rightarrow> (QString \<times> QString) list" where
  "attributes xml = (case token xml of Some (StartElement n a) \<Rightarrow> a | _ \<Rightarrow> [])"

definition hasAttribute :: "(QString \<times> QString) list \<Rightarrow> QString \<Rightarrow> bool" where
  "hasAttribute as k = (k \<in> set (map fst as))"

definition attribute_value :: "(QString \<times> QString) list \<Rightarrow> QString \<Rightarrow> QString" where
  "attribute_value as k = (case map_of as k of Some v \<Rightarrow> v | None \<Rightarrow> [])"

text \<open>
  \<open>readNextStartElement\<close> reads on until a start element (true) or until an end
  element or the end of the document (false).
\<close>

fun readNextStartElement_from :: "token list \<Rightarrow> bool \<times> QXmlStreamReader" where
  "readNextStartElement_from [] = (False, \<lparr>token = None, input = []\<rparr>)"
| "readNextStartElement_from (StartElement n a # ts) =
     (True, \<lparr>token = Some (StartElement n a), input = ts\<rparr>)"
| "readNextStartElement_from (EndElement # ts) =
     (False, \<lparr>token = Some EndElement, input = ts\<rparr>)"
| "readNextStartElement_from (Characters c # ts) = readNextStartElement_from ts"

definition readNextStartElement :: "QXmlStreamReader \<Rightarrow> bool \<times> QXmlStreamReader" where
  "readNextStartElement xml = readNextStartElement_from (input xml)"

text \<open>
  \<open>skipCurrentElement\<close> reads on with a depth counter that starts at one, until the
  counter is zero or the document ends.
\<close>

fun skip_depth :: "nat \<Rightarrow> token option \<Rightarrow> token list \<Rightarrow> QXmlStreamReader" where
  "skip_depth 0 cur ts = \<lparr>token = cur, input = ts\<rparr>"
| "skip_depth (Suc d) cur [] = \<lparr>token = None, input = []\<rparr>"
| "skip_depth (Suc d) cur (EndElement # ts) = skip_depth d (Some EndElement) ts"
| "skip_depth (Suc d) cur (StartElement n a # ts) =
     skip_depth (Suc (Suc d)) (Some (StartElement n a)) ts"
| "skip_depth (Suc d) cur (Characters c # ts) = skip_depth (Suc d) (Some (Characters c)) ts"

definition skipCurrentElement :: "QXmlStreamReader \<Rightarrow> QXmlStreamReader" where
  "skipCurrentElement xml = skip_depth 1 (token xml) (input xml)"

text \<open>
  The writer appends to the tokens written so far; \<open>writeAttribute\<close> adds to the
  start element written last.
\<close>

type_synonym QXmlStreamWriter = "token list"

definition writeStartElement :: "QString \<Rightarrow> QXmlStreamWriter \<Rightarrow> QXmlStreamWriter" where
  "writeStartElement n w = w @ [StartElement n []]"

definition writeAttribute :: "QString \<Rightarrow> QString \<Rightarrow> QXmlStreamWriter \<Rightarrow> QXmlStreamWriter" where
  "writeAttribute k v w =
     (case rev w of
        StartElement n a # r \<Rightarrow> rev r @ [StartElement n (a @ [(k, v)])]
      | _ \<Rightarrow> w)"

definition writeEndElement :: "QXmlStreamWriter \<Rightarrow> QXmlStreamWriter" where
  "writeEndElement w = w @ [EndElement]"

section \<open>The event registry\<close>

text \<open>
  \<open>SerialPortInfo\<close> is the attribute bag \<open>m_info\<close>, a hash from attribute name to
  \<open>QVariant\<close>.
\<close>

record SerialPortInfo =
  m_info :: "QString \<rightharpoonup> QVariant"

text \<open>
  \<open>XmlReplayEvent\<close> is the base class, with the time of the event;
  \<open>GetAvailablePortsEvent\<close>, the one class derived from it, adds the list of ports.
\<close>

record XmlReplayEvent =
  m_time :: QDateTime

record GetAvailablePortsEvent = XmlReplayEvent +
  m_ports :: "SerialPortInfo list"

text \<open>
  A factory method is a function pointer, which may be null (\<open>None\<close>). The factory
  constructs the event, and the constructor of \<open>XmlReplayEvent\<close> reads the clock: the
  model hands the factory the current time.
\<close>

type_synonym FactoryMethod = "(QDateTime \<Rightarrow> GetAvailablePortsEvent) option"

type_synonym factories = "QString \<rightharpoonup> FactoryMethod"

definition registerClass ::
  "QString \<Rightarrow> FactoryMethod \<Rightarrow> factories \<Rightarrow> bool \<times> factories \<times> diagnostic list" where
  "registerClass tag factory s_factories =
     (if tag \<in> dom s_factories then (False, s_factories, [AlreadyRegistered tag])
      else (True, s_factories(tag \<mapsto> factory), []))"

definition createInstance ::
  "factories \<Rightarrow> QDateTime \<Rightarrow> QString \<Rightarrow> GetAvailablePortsEvent option \<times> diagnostic list" where
  "createInstance s_factories now tag =
     (let factory = (case s_factories tag of None \<Rightarrow> None | Some f \<Rightarrow> f)
      in case factory of
           None \<Rightarrow> (None, [NoEventClass tag])
         | Some f \<Rightarrow> (Some (f now), []))"

section \<open>The replay store\<close>

text \<open>
  \<open>XmlReplay\<close> holds the events of each tag in document order and the index of the
  next event to hand out. The indices count up from zero and are natural numbers here.
\<close>

record XmlReplay =
  m_events :: "QString \<rightharpoonup> GetAvailablePortsEvent list"
  m_indices :: "QString \<rightharpoonup> nat"

text \<open>\<open>m_indices.value(type)\<close>: the index of a tag, zero when the hash has no entry.\<close>

definition cursor :: "XmlReplay \<Rightarrow> QString \<Rightarrow> nat" where
  "cursor r type = (case m_indices r type of None \<Rightarrow> 0 | Some i \<Rightarrow> i)"

text \<open>
  \<open>getNextEvent\<close>. Reading \<open>m_indices[type]\<close> inserts the default index zero when the
  tag has none yet.
\<close>

definition getNextEvent :: "QString \<Rightarrow> XmlReplay \<Rightarrow> GetAvailablePortsEvent option \<times> XmlReplay" where
  "getNextEvent type r =
     (case m_events r type of
        None \<Rightarrow> (None, r)
      | Some events \<Rightarrow>
          (let i = cursor r type;
               r1 = r\<lparr>m_indices := (m_indices r)(type \<mapsto> i)\<rparr>
           in if i < length events
              then (Some (events ! i), r1\<lparr>m_indices := (m_indices r1)(type \<mapsto> i + 1)\<rparr>)
              else (None, r1)))"


section \<open>Serial port descriptors\<close>

text \<open>What the code reads of Qt's own \<open>QSerialPortInfo\<close>; the identifiers are \<open>quint16\<close>.\<close>

record QSerialPortInfo =
  q_isNull :: bool
  q_portName :: QString
  q_systemLocation :: QString
  q_description :: QString
  q_manufacturer :: QString
  q_serialNumber :: QString
  q_hasVendorIdentifier :: bool
  q_vendorIdentifier :: "16 word"
  q_hasProductIdentifier :: bool
  q_productIdentifier :: "16 word"

text \<open>\<open>SerialPortInfo()\<close>: the empty bag.\<close>

definition SerialPortInfo_null :: SerialPortInfo where
  "SerialPortInfo_null = \<lparr>m_info = Map.empty\<rparr>"

text \<open>\<open>info.m_info[key] = v\<close>.\<close>

definition set_info :: "QString \<Rightarrow> QVariant \<Rightarrow> SerialPortInfo \<Rightarrow> SerialPortInfo" where
  "set_info key v info = info\<lparr>m_info := (m_info info)(key \<mapsto> v)\<rparr>"

text \<open>\<open>SerialPortInfo(const QSerialPortInfo &)\<close>.\<close>

definition SerialPortInfo_of :: "QSerialPortInfo \<Rightarrow> SerialPortInfo" where
  "SerialPortInfo_of other =
     (if q_isNull other = False then
        (let info = set_info ''portName'' (VString (q_portName other)) SerialPortInfo_null;
             info = set_info ''systemLocation'' (VString (q_systemLocation other)) info;
             info = set_info ''description'' (VString (q_description other)) info;
             info = set_info ''manufacturer'' (VString (q_manufacturer other)) info;
             info = set_info ''serialNumber'' (VString (q_serialNumber other)) info;
             info = (if q_hasVendorIdentifier other
                     then set_info ''vendorIdentifier'' (VInt (uint (q_vendorIdentifier other))) info
                     else info);
             info = (if q_hasProductIdentifier other
                     then set_info ''productIdentifier'' (VInt (uint (q_productIdentifier other))) info
                     else info)
         in info)
      else SerialPortInfo_null)"

text \<open>
  Modelled from the spec: the accessors of \<open>SerialPortInfo\<close>, which the header
  \<^verbatim>\<open>deviceconnection.h\<close> declares and this file only calls. The spec has the
  descriptor as a flattened attribute bag from the fixed keys to values, has the null
  descriptor as the empty bag, and has the absence of a vendor or product identifier
  distinguishable from a zero identifier: so \<open>isNull\<close> is the empty bag, the string
  accessors read their key as a string (empty when the key is absent), \<open>has...\<close> is
  the presence of the key and the identifier accessors read the integer under the key
  as a \<open>quint16\<close>. The source stores strings under the five string keys and integers
  under the two identifier keys; a string under an identifier key reads as zero.
\<close>

definition isNull :: "SerialPortInfo \<Rightarrow> bool" where
  "isNull info = (m_info info = Map.empty)"

definition QVariant_toString :: "QVariant option \<Rightarrow> QString" where
  "QVariant_toString v =
     (case v of None \<Rightarrow> [] | Some (VString s) \<Rightarrow> s | Some (VInt i) \<Rightarrow> QString_number i)"

definition QVariant_toUInt16 :: "QVariant option \<Rightarrow> 16 word" where
  "QVariant_toUInt16 v = (case v of Some (VInt i) \<Rightarrow> word_of_int i | _ \<Rightarrow> 0)"

definition portName :: "SerialPortInfo \<Rightarrow> QString" where
  "portName info = QVariant_toString (m_info info ''portName'')"

definition systemLocation :: "SerialPortInfo \<Rightarrow> QString" where
  "systemLocation info = QVariant_toString (m_info info ''systemLocation'')"

definition description :: "SerialPortInfo \<Rightarrow> QString" where
  "description info = QVariant_toString (m_info info ''description'')"

definition manufacturer :: "SerialPortInfo \<Rightarrow> QString" where
  "manufacturer info = QVariant_toString (m_info info ''manufacturer'')"

definition serialNumber :: "SerialPortInfo \<Rightarrow> QString" where
  "serialNumber info = QVariant_toString (m_info info ''serialNumber'')"

definition hasVendorIdentifier :: "SerialPortInfo \<Rightarrow> bool" where
  "hasVendorIdentifier info = (''vendorIdentifier'' \<in> dom (m_info info))"

definition hasProductIdentifier :: "SerialPortInfo \<Rightarrow> bool" where
  "hasProductIdentifier info = (''productIdentifier'' \<in> dom (m_info info))"

definition vendorIdentifier :: "SerialPortInfo \<Rightarrow> 16 word" where
  "vendorIdentifier info = QVariant_toUInt16 (m_info info ''vendorIdentifier'')"

definition productIdentifier :: "SerialPortInfo \<Rightarrow> 16 word" where
  "productIdentifier info = QVariant_toUInt16 (m_info info ''productIdentifier'')"

text \<open>\<open>SerialPortInfo::operator==\<close>: the bags are equal.\<close>

definition SerialPortInfo_eq :: "SerialPortInfo \<Rightarrow> SerialPortInfo \<Rightarrow> bool" where
  "SerialPortInfo_eq a b = (m_info a = m_info b)"

text \<open>\<open>operator<<(QXmlStreamWriter &, const SerialPortInfo &)\<close>.\<close>

definition SerialPortInfo_write :: "SerialPortInfo \<Rightarrow> QXmlStreamWriter \<Rightarrow> QXmlStreamWriter" where
  "SerialPortInfo_write info xml =
     (let xml = writeStartElement ''serial'' xml;
          xml =
            (if isNull info = False then
               (let xml = writeAttribute ''portName'' (portName info) xml;
                    xml = writeAttribute ''systemLocation'' (systemLocation info) xml;
                    xml = writeAttribute ''description'' (description info) xml;
                    xml = writeAttribute ''manufacturer'' (manufacturer info) xml;
                    xml = writeAttribute ''serialNumber'' (serialNumber info) xml;
                    xml = (if hasVendorIdentifier info
                           then writeAttribute ''vendorIdentifier''
                                  (hex (uint (vendorIdentifier info))) xml
                           else xml);
                    xml = (if hasProductIdentifier info
                           then writeAttribute ''productIdentifier''
                                  (hex (uint (productIdentifier info))) xml
                           else xml)
                in xml)
             else xml)
      in writeEndElement xml)"

text \<open>
  \<open>operator>>(QXmlStreamReader &, SerialPortInfo &)\<close>. The loop over the attributes
  first: an identifier that parses is cut to a \<open>quint16\<close> and stored as an integer, one
  that does not parse is reported and not stored, any other attribute is stored as a
  string under its own name.
\<close>

fun read_attributes ::
  "(QString \<times> QString) list \<Rightarrow> SerialPortInfo \<Rightarrow> SerialPortInfo \<times> diagnostic list" where
  "read_attributes [] info = (info, [])"
| "read_attributes ((name, val) # as) info =
     (if name = ''vendorIdentifier'' \<or> name = ''productIdentifier'' then
        (case QString_toUInt0 val of
           Some n \<Rightarrow>
             (let id = (word_of_nat n :: 16 word)
              in read_attributes as (set_info name (VInt (uint id)) info))
         | None \<Rightarrow>
             (let (info', ds) = read_attributes as info
              in (info', InvalidValue name val # ds)))
      else read_attributes as (set_info name (VString val) info))"

definition SerialPortInfo_read ::
  "QXmlStreamReader \<Rightarrow> SerialPortInfo \<Rightarrow> QXmlStreamReader \<times> SerialPortInfo \<times> diagnostic list" where
  "SerialPortInfo_read xml info =
     (let (info', ds) =
            (if atEnd xml = False \<and> isStartElement xml \<and> xml_name xml = ''serial''
             then read_attributes (attributes xml) info
             else (info, [NoSerialTag]))
      in (skipCurrentElement xml, info', ds))"

text \<open>The list operators: \<open>operator<<\<close> writes every item in order.\<close>

fun QList_write :: "SerialPortInfo list \<Rightarrow> QXmlStreamWriter \<Rightarrow> QXmlStreamWriter" where
  "QList_write [] xml = xml"
| "QList_write (item # list) xml = QList_write list (SerialPortInfo_write item xml)"

lemma readNextStartElement_from_shorter:
  "readNextStartElement_from ts = (True, xml) \<Longrightarrow> length (input xml) < length ts"
  by (induction ts arbitrary: xml rule: readNextStartElement_from.induct) auto

lemma readNextStartElement_shorter:
  "readNextStartElement xml = (True, xml1) \<Longrightarrow> length (input xml1) < length (input xml)"
  by (simp add: readNextStartElement_def readNextStartElement_from_shorter)

lemma readNextStartElement_from_not_longer:
  "length (input (snd (readNextStartElement_from ts))) \<le> length ts"
  by (induction ts rule: readNextStartElement_from.induct) auto

lemma readNextStartElement_not_longer:
  "length (input (snd (readNextStartElement xml))) \<le> length (input xml)"
  by (simp add: readNextStartElement_def readNextStartElement_from_not_longer)

lemma skip_depth_not_longer: "length (input (skip_depth d cur ts)) \<le> length ts"
  by (induction d cur ts rule: skip_depth.induct) auto

lemma skipCurrentElement_not_longer:
  "length (input (skipCurrentElement xml)) \<le> length (input xml)"
  by (simp add: skipCurrentElement_def skip_depth_not_longer)

lemma read_then_skip_shorter:
  "(True, xml1) = readNextStartElement xml \<Longrightarrow>
   length (input (skipCurrentElement xml1)) < length (input xml)"
  using readNextStartElement_shorter [of xml xml1] skipCurrentElement_not_longer [of xml1]
  by simp

lemma SerialPortInfo_read_reader:
  "fst (SerialPortInfo_read xml info) = skipCurrentElement xml"
  by (simp add: SerialPortInfo_read_def split_def)

text \<open>
  \<open>operator>>\<close> for a list: the loop that reads one item per start element, each into
  a fresh \<open>SerialPortInfo\<close>, until \<open>readNextStartElement\<close> is false.
\<close>

function QList_read_loop ::
  "QXmlStreamReader \<Rightarrow> SerialPortInfo list \<Rightarrow>
   QXmlStreamReader \<times> SerialPortInfo list \<times> diagnostic list" where
  "QList_read_loop xml list =
     (case readNextStartElement xml of
        (True, xml1) \<Rightarrow>
          (let r = SerialPortInfo_read xml1 SerialPortInfo_null;
               (xml3, list', ds') = QList_read_loop (fst r) (list @ [fst (snd r)])
           in (xml3, list', snd (snd r) @ ds'))
      | (False, xml1) \<Rightarrow> (xml1, list, []))"
  by pat_completeness auto
termination
  by (relation "measure (\<lambda>(xml, list). length (input xml))")
    (simp_all add: SerialPortInfo_read_reader read_then_skip_shorter)

declare QList_read_loop.simps [simp del]

definition QList_read ::
  "QXmlStreamReader \<Rightarrow> QXmlStreamReader \<times> SerialPortInfo list \<times> diagnostic list" where
  "QList_read xml = QList_read_loop xml []"

section \<open>Worked values\<close>

text \<open>
  Two ports as Qt would enumerate them, their descriptors, two events that hold them
  and a store with the two events under \<open>getAvailablePorts\<close>, for the concrete
  instances below.
\<close>

definition q_usb0 :: QSerialPortInfo where
  "q_usb0 = \<lparr>q_isNull = False, q_portName = ''ttyUSB0'', q_systemLocation = ''/dev/ttyUSB0'',
     q_description = ''FT232R'', q_manufacturer = ''FTDI'', q_serialNumber = ''A1'',
     q_hasVendorIdentifier = True, q_vendorIdentifier = 0x0403,
     q_hasProductIdentifier = True, q_productIdentifier = 0x6001\<rparr>"

definition q_com1 :: QSerialPortInfo where
  "q_com1 = \<lparr>q_isNull = False, q_portName = ''COM1'', q_systemLocation = ''COM1'',
     q_description = [], q_manufacturer = [], q_serialNumber = [],
     q_hasVendorIdentifier = False, q_vendorIdentifier = 0,
     q_hasProductIdentifier = False, q_productIdentifier = 0\<rparr>"

definition event_usb0 :: GetAvailablePortsEvent where
  "event_usb0 = \<lparr>m_time = 1000, m_ports = [SerialPortInfo_of q_usb0]\<rparr>"

definition event_com1 :: GetAvailablePortsEvent where
  "event_com1 = \<lparr>m_time = 2000, m_ports = [SerialPortInfo_of q_com1]\<rparr>"

definition store_two :: XmlReplay where
  "store_two = \<lparr>m_events = [''getAvailablePorts'' \<mapsto> [event_usb0, event_com1]],
     m_indices = Map.empty\<rparr>"

definition store_none :: XmlReplay where
  "store_none = \<lparr>m_events = Map.empty, m_indices = Map.empty\<rparr>"

section \<open>Registration\<close>

text \<open>
  The factory that the registration macro passes for \<open>GetAvailablePortsEvent\<close>
  (\<open>XmlReplayBase<Derived>::createInstance\<close>): a new event, its time the current
  time, its list of ports empty.
\<close>

definition GetAvailablePortsEvent_TAG :: QString where
  "GetAvailablePortsEvent_TAG = ''getAvailablePorts''"

definition GetAvailablePortsEvent_createInstance :: "QDateTime \<Rightarrow> GetAvailablePortsEvent" where
  "GetAvailablePortsEvent_createInstance now = \<lparr>m_time = now, m_ports = []\<rparr>"

text \<open>The registry after static initialisation: the one registration of the file.\<close>

definition registered_factories :: factories where
  "registered_factories =
     fst (snd (registerClass GetAvailablePortsEvent_TAG
       (Some GetAvailablePortsEvent_createInstance) Map.empty))"

lemma registered_factories_eq:
  "registered_factories =
     [GetAvailablePortsEvent_TAG \<mapsto> Some GetAvailablePortsEvent_createInstance]"
  by (simp add: registered_factories_def registerClass_def)

text \<open>
  C5. Registering a factory under a tag that the registry already holds returns false,
  emits the "already registered" diagnostic and leaves the registry as it was, so that
  \<open>createInstance\<close> still answers as before. Registering under a fresh tag returns
  true, emits nothing and adds the mapping, every other tag unchanged. After a first
  factory \<open>f\<close> went in under a fresh tag, registering a second one \<open>g\<close> under the same
  tag is refused and \<open>createInstance\<close> still constructs with \<open>f\<close>.
\<close>

theorem registerClass_unique:
  "(tag \<in> dom s \<longrightarrow>
      registerClass tag g s = (False, s, [AlreadyRegistered tag])
      \<and> createInstance (fst (snd (registerClass tag g s))) now tag = createInstance s now tag)
   \<and> (tag \<notin> dom s \<longrightarrow>
        (let (ok, s', d) = registerClass tag g s
         in ok \<and> d = [] \<and> s' tag = Some g \<and> (\<forall>t. t \<noteq> tag \<longrightarrow> s' t = s t)))
   \<and> (tag \<notin> dom s \<longrightarrow>
        (let (ok1, s1, d1) = registerClass tag (Some f) s;
             (ok2, s2, d2) = registerClass tag g s1
         in ok1 \<and> \<not> ok2 \<and> s2 = s1 \<and> d2 = [AlreadyRegistered tag]
            \<and> createInstance s2 now tag = (Some (f now), [])))"
  by (simp add: registerClass_def createInstance_def)

theorem registerClass_unique_witness:
  "registerClass ''getAvailablePorts'' (Some (\<lambda>t. \<lparr>m_time = 0, m_ports = []\<rparr>))
       registered_factories
     = (False, registered_factories, [AlreadyRegistered ''getAvailablePorts''])
   \<and> createInstance
        (fst (snd (registerClass ''getAvailablePorts''
           (Some (\<lambda>t. \<lparr>m_time = 0, m_ports = []\<rparr>)) registered_factories)))
        7 ''getAvailablePorts''
      = (Some \<lparr>m_time = 7, m_ports = []\<rparr>, [])
   \<and> fst (registerClass ''getAvailablePorts'' (Some GetAvailablePortsEvent_createInstance)
        Map.empty) = True"
proof -
  have in_dom: "''getAvailablePorts'' \<in> dom registered_factories"
    by (simp add: registered_factories_eq GetAvailablePortsEvent_TAG_def)
  have fresh: "''getAvailablePorts'' \<notin> dom (Map.empty :: factories)"
    by simp
  have old: "createInstance registered_factories 7 ''getAvailablePorts''
      = (Some \<lparr>m_time = 7, m_ports = []\<rparr>, [])"
    by (simp add: registered_factories_eq GetAvailablePortsEvent_TAG_def createInstance_def
        GetAvailablePortsEvent_createInstance_def)
  from registerClass_unique
         [of "''getAvailablePorts''" registered_factories
             "Some (\<lambda>t. \<lparr>m_time = 0, m_ports = []\<rparr>)" 7]
       registerClass_unique
         [of "''getAvailablePorts''" Map.empty
             "Some GetAvailablePortsEvent_createInstance"]
       in_dom fresh old
  show ?thesis
    by (simp add: split_def Let_def)
qed

section \<open>The replay cursor\<close>



lemma getNextEvent_unknown:
  "m_events r type = None \<Longrightarrow> getNextEvent type r = (None, r)"
  by (simp add: getNextEvent_def)




section \<open>Events on the stream\<close>

text \<open>
  \<open>GetAvailablePortsEvent::write\<close> and \<open>read\<close>, the virtual functions that the stream
  operators of \<open>XmlReplayEvent\<close> call: the list of ports, written and read as a list.
\<close>

definition GetAvailablePortsEvent_write ::
  "GetAvailablePortsEvent \<Rightarrow> QXmlStreamWriter \<Rightarrow> QXmlStreamWriter" where
  "GetAvailablePortsEvent_write event xml = QList_write (m_ports event) xml"

definition GetAvailablePortsEvent_read ::
  "QXmlStreamReader \<Rightarrow> GetAvailablePortsEvent \<Rightarrow>
   QXmlStreamReader \<times> GetAvailablePortsEvent \<times> diagnostic list" where
  "GetAvailablePortsEvent_read xml event =
     (let (xml', list, ds) = QList_read xml
      in (xml', event\<lparr>m_ports := list\<rparr>, ds))"

text \<open>
  \<open>operator<<(QXmlStreamWriter &, const XmlReplayEvent &)\<close>. How Qt prints a time
  (\<open>toString(Qt::ISODateWithMs)\<close>) is the parameter \<open>toString\<close>.
\<close>

definition XmlReplayEvent_write ::
  "(QDateTime \<Rightarrow> QString) \<Rightarrow> GetAvailablePortsEvent \<Rightarrow> QXmlStreamWriter \<Rightarrow> QXmlStreamWriter" where
  "XmlReplayEvent_write toString event xml =
     (let timestamp = toString (m_time event);
          xml = writeStartElement GetAvailablePortsEvent_TAG xml;
          xml = writeAttribute ''time'' timestamp xml;
          xml = GetAvailablePortsEvent_write event xml
      in writeEndElement xml)"

text \<open>
  \<open>operator>>(QXmlStreamReader &, XmlReplayEvent &)\<close>. How Qt parses a time
  (\<open>QDateTime::fromString(..., Qt::ISODateWithMs)\<close>) is the parameter \<open>fromString\<close>,
  and \<open>now\<close> is the clock. The local variable \<open>time\<close> receives the parsed attribute, or
  the current time with a diagnostic; the function then calls \<open>event.read(xml)\<close> and
  returns. The \<open>Q_ASSERT\<close> at the top is compiled out of a release build.
\<close>

definition XmlReplayEvent_read ::
  "(QString \<Rightarrow> QDateTime) \<Rightarrow> QDateTime \<Rightarrow> QXmlStreamReader \<Rightarrow> GetAvailablePortsEvent \<Rightarrow>
   QXmlStreamReader \<times> GetAvailablePortsEvent \<times> diagnostic list" where
  "XmlReplayEvent_read fromString now xml event =
     (let (time, ds0) =
            (if hasAttribute (attributes xml) ''time''
             then (fromString (attribute_value (attributes xml) ''time''), [])
             else (now, [MissingTimestamp (xml_name xml)]));
          (xml', event', ds) = GetAvailablePortsEvent_read xml event
      in (xml', event', ds0 @ ds))"

lemma QList_read_loop_not_longer:
  "length (input (fst (QList_read_loop xml list))) \<le> length (input xml)"
proof (induction xml list rule: QList_read_loop.induct)
  case (1 xml list)
  show ?case
  proof (cases "readNextStartElement xml")
    case (Pair b xml1)
    show ?thesis
    proof (cases b)
      case True
      have step: "length (input (skipCurrentElement xml1)) < length (input xml)"
        using read_then_skip_shorter [of xml1 xml] Pair True by simp
      have "length (input (fst (QList_read_loop (fst (SerialPortInfo_read xml1 SerialPortInfo_null))
              (list @ [fst (snd (SerialPortInfo_read xml1 SerialPortInfo_null))]))))
            \<le> length (input (fst (SerialPortInfo_read xml1 SerialPortInfo_null)))"
        using "1.IH" [OF Pair [symmetric] _ refl] True by simp
      then show ?thesis
        using step Pair True
        by (subst QList_read_loop.simps) (simp add: split_def Let_def SerialPortInfo_read_reader)
    next
      case False
      have "length (input xml1) \<le> length (input xml)"
        using readNextStartElement_not_longer [of xml] Pair by simp
      then show ?thesis
        using Pair False by (subst QList_read_loop.simps) simp
    qed
  qed
qed

lemma XmlReplayEvent_read_not_longer:
  "length (input (fst (XmlReplayEvent_read fromString now xml event))) \<le> length (input xml)"
  using QList_read_loop_not_longer [of xml "[]"]
  by (simp add: XmlReplayEvent_read_def GetAvailablePortsEvent_read_def QList_read_def
      split_def Let_def)

lemma read_then_event_shorter:
  "(True, xml1) = readNextStartElement xml \<Longrightarrow>
   length (input (fst (XmlReplayEvent_read fromString now xml1 event))) < length (input xml)"
  using readNextStartElement_shorter [of xml xml1]
    XmlReplayEvent_read_not_longer [of fromString now xml1 event]
  by simp

section \<open>Loading a trace\<close>

text \<open>
  \<open>XmlReplay::deserializeEvents\<close>: for every start element, the registry is asked for
  an event of that name; with an event, the element is read into it and the event is
  appended to the list of its name (\<open>m_events[name]\<close> starts out empty); without one,
  the element is skipped. The registry \<open>s_factories\<close>, the time parser and the clock
  are parameters.
\<close>

function deserializeEvents ::
  "factories \<Rightarrow> (QString \<Rightarrow> QDateTime) \<Rightarrow> QDateTime \<Rightarrow> QXmlStreamReader \<Rightarrow> XmlReplay \<Rightarrow>
   QXmlStreamReader \<times> XmlReplay \<times> diagnostic list" where
  "deserializeEvents s_factories fromString now xml r =
     (case readNextStartElement xml of
        (True, xml1) \<Rightarrow>
          (let name = xml_name xml1;
               c = createInstance s_factories now name
           in case fst c of
                Some event \<Rightarrow>
                  (let rd = XmlReplayEvent_read fromString now xml1 event;
                       events = (case m_events r name of None \<Rightarrow> [] | Some es \<Rightarrow> es);
                       r1 = r\<lparr>m_events := (m_events r)(name \<mapsto> events @ [fst (snd rd)])\<rparr>;
                       rest = deserializeEvents s_factories fromString now (fst rd) r1
                   in (fst rest, fst (snd rest), snd c @ snd (snd rd) @ snd (snd rest)))
              | None \<Rightarrow>
                  (let rest = deserializeEvents s_factories fromString now
                                (skipCurrentElement xml1) r
                   in (fst rest, fst (snd rest), snd c @ snd (snd rest))))
      | (False, xml1) \<Rightarrow> (xml1, r, []))"
  by pat_completeness auto
termination
  by (relation "measure (\<lambda>(s_factories, fromString, now, xml, r). length (input xml))")
    (simp_all add: read_then_skip_shorter read_then_event_shorter)

declare deserializeEvents.simps [simp del]

lemma deserializeEvents_not_longer:
  "length (input (fst (deserializeEvents s_factories fromString now xml r))) \<le> length (input xml)"
proof (induction s_factories fromString now xml r rule: deserializeEvents.induct)
  case (1 s_factories fromString now xml r)
  show ?case
  proof (cases "readNextStartElement xml")
    case (Pair b xml1)
    show ?thesis
    proof (cases b)
      case False
      have "length (input xml1) \<le> length (input xml)"
        using readNextStartElement_not_longer [of xml] Pair by simp
      then show ?thesis
        using Pair False by (subst deserializeEvents.simps) simp
    next
      case True
      have rd: "(True, xml1) = readNextStartElement xml"
        using Pair True by simp
      show ?thesis
      proof (cases "fst (createInstance s_factories now (xml_name xml1))")
        case None
        have "length (input (fst (deserializeEvents s_factories fromString now
                 (skipCurrentElement xml1) r))) \<le> length (input (skipCurrentElement xml1))"
          using "1.IH"(1) [OF rd refl refl refl None] by simp
        then show ?thesis
          using read_then_skip_shorter [OF rd] Pair True None
          by (subst deserializeEvents.simps) (simp add: Let_def)
      next
        case (Some event)
        let ?rd = "XmlReplayEvent_read fromString now xml1 event"
        let ?r1 = "r\<lparr>m_events := (m_events r)(xml_name xml1 \<mapsto>
               (case m_events r (xml_name xml1) of None \<Rightarrow> [] | Some es \<Rightarrow> es)
               @ [fst (snd ?rd)])\<rparr>"
        have "length (input (fst (deserializeEvents s_factories fromString now (fst ?rd) ?r1)))
              \<le> length (input (fst ?rd))"
          using "1.IH"(2) [OF rd refl refl refl Some refl refl refl] by simp
        then show ?thesis
          using read_then_event_shorter [OF rd, of fromString now event] Pair True Some
          by (subst deserializeEvents.simps) (simp add: Let_def)
      qed
    qed
  qed
qed

lemma read_then_events_shorter:
  "(True, xml1) = readNextStartElement xml \<Longrightarrow>
   length (input (fst (deserializeEvents s_factories fromString now xml1 r)))
     < length (input xml)"
  using readNextStartElement_shorter [of xml xml1]
    deserializeEvents_not_longer [of s_factories fromString now xml1 r]
  by simp

text \<open>
  \<open>XmlReplay::deserialize\<close>: inside the root element \<open>xmlreplay\<close>, the loop reads every
  \<open>events\<close> element with \<open>deserializeEvents\<close> and skips any other, with a diagnostic.
\<close>

function deserialize_loop ::
  "factories \<Rightarrow> (QString \<Rightarrow> QDateTime) \<Rightarrow> QDateTime \<Rightarrow> QXmlStreamReader \<Rightarrow> XmlReplay \<Rightarrow>
   QXmlStreamReader \<times> XmlReplay \<times> diagnostic list" where
  "deserialize_loop s_factories fromString now xml r =
     (case readNextStartElement xml of
        (True, xml1) \<Rightarrow>
          (if xml_name xml1 = ''events'' then
             (let ev = deserializeEvents s_factories fromString now xml1 r;
                  rest = deserialize_loop s_factories fromString now (fst ev) (fst (snd ev))
              in (fst rest, fst (snd rest), snd (snd ev) @ snd (snd rest)))
           else
             (let rest = deserialize_loop s_factories fromString now
                           (skipCurrentElement xml1) r
              in (fst rest, fst (snd rest), UnexpectedPayload (xml_name xml1) # snd (snd rest))))
      | (False, xml1) \<Rightarrow> (xml1, r, []))"
  by pat_completeness auto
termination
  by (relation "measure (\<lambda>(s_factories, fromString, now, xml, r). length (input xml))")
    (simp_all add: read_then_skip_shorter read_then_events_shorter)

declare deserialize_loop.simps [simp del]

definition deserialize ::
  "factories \<Rightarrow> (QString \<Rightarrow> QDateTime) \<Rightarrow> QDateTime \<Rightarrow> QXmlStreamReader \<Rightarrow> XmlReplay \<Rightarrow>
   QXmlStreamReader \<times> XmlReplay \<times> diagnostic list" where
  "deserialize s_factories fromString now xml r =
     (case readNextStartElement xml of
        (True, xml1) \<Rightarrow>
          (if xml_name xml1 = ''xmlreplay''
           then deserialize_loop s_factories fromString now xml1 r
           else (xml1, r, []))
      | (False, xml1) \<Rightarrow> (xml1, r, []))"

text \<open>
  \<open>XmlReplay::XmlReplay(QXmlStreamReader &)\<close>: both hashes start out empty and the
  document is deserialized into them.
\<close>

definition XmlReplay_new ::
  "factories \<Rightarrow> (QString \<Rightarrow> QDateTime) \<Rightarrow> QDateTime \<Rightarrow> QXmlStreamReader \<Rightarrow>
   XmlReplay \<times> diagnostic list" where
  "XmlReplay_new s_factories fromString now xml =
     snd (deserialize s_factories fromString now xml
            \<lparr>m_events = Map.empty, m_indices = Map.empty\<rparr>)"

section \<open>The device connection manager\<close>

text \<open>
  \<open>XmlRecord\<close> owns the writer of a recording; its constructor writes the prologue and
  its destructor the epilogue.
\<close>

record XmlRecord =
  m_xml :: QXmlStreamWriter

definition prologue :: "QXmlStreamWriter \<Rightarrow> QXmlStreamWriter" where
  "prologue xml = writeStartElement ''events'' (writeStartElement ''xmlreplay'' xml)"

definition epilogue :: "QXmlStreamWriter \<Rightarrow> QXmlStreamWriter" where
  "epilogue xml = writeEndElement (writeEndElement xml)"

definition XmlRecord_new :: XmlRecord where
  "XmlRecord_new = \<lparr>m_xml = prologue []\<rparr>"

text \<open>\<open>XmlReplayEvent::record\<close>: nothing without a recording.\<close>

definition record_event ::
  "(QDateTime \<Rightarrow> QString) \<Rightarrow> GetAvailablePortsEvent \<Rightarrow> XmlRecord option \<Rightarrow> XmlRecord option" where
  "record_event toString event writer =
     (case writer of
        None \<Rightarrow> None
      | Some w \<Rightarrow> Some (w\<lparr>m_xml := XmlReplayEvent_write toString event (m_xml w)\<rparr>))"

record DeviceConnectionManager =
  m_record :: "XmlRecord option"
  m_replay :: "XmlReplay option"
  m_serialPorts :: "SerialPortInfo list"

text \<open>The constructor: no recording, no replay, no ports seen yet.\<close>

definition DeviceConnectionManager_new :: DeviceConnectionManager where
  "DeviceConnectionManager_new = \<lparr>m_record = None, m_replay = None, m_serialPorts = []\<rparr>"

text \<open>
  \<open>XmlReplay::getNextEvent<GetAvailablePortsEvent>\<close>: the next event under the tag of
  the class; the dynamic cast is to the one class there is.
\<close>

definition getNextEvent_GetAvailablePorts ::
  "XmlReplay \<Rightarrow> GetAvailablePortsEvent option \<times> XmlReplay" where
  "getNextEvent_GetAvailablePorts r = getNextEvent GetAvailablePortsEvent_TAG r"

text \<open>
  \<open>DeviceConnectionManager::getAvailablePorts\<close>. What
  \<open>QSerialPortInfo::availablePorts()\<close> would answer is the parameter \<open>availablePorts\<close>;
  \<open>now\<close> is the clock, read by the constructor of the local event.
\<close>

definition getAvailablePorts ::
  "(QDateTime \<Rightarrow> QString) \<Rightarrow> QDateTime \<Rightarrow> QSerialPortInfo list \<Rightarrow> DeviceConnectionManager \<Rightarrow>
   SerialPortInfo list \<times> DeviceConnectionManager" where
  "getAvailablePorts toString now availablePorts mgr =
     (let event = GetAvailablePortsEvent_createInstance now;
          (event, replay) =
            (case m_replay mgr of
               None \<Rightarrow>
                 (event\<lparr>m_ports := m_ports event @ map SerialPortInfo_of availablePorts\<rparr>, None)
             | Some r \<Rightarrow>
                 (let (replayEvent, r') = getNextEvent_GetAvailablePorts r
                  in case replayEvent of
                       Some e \<Rightarrow> (event\<lparr>m_ports := m_ports e\<rparr>, Some r')
                     | None \<Rightarrow> (event\<lparr>m_ports := m_serialPorts mgr\<rparr>, Some r')));
          mgr = mgr\<lparr>m_replay := replay, m_serialPorts := m_ports event\<rparr>;
          mgr = mgr\<lparr>m_record := record_event toString event (m_record mgr)\<rparr>
      in (m_ports event, mgr))"

text \<open>
  A run of calls of \<open>getAvailablePorts\<close>, one per element of the list, which gives the
  clock and the ports attached at that call; the results are in call order.
\<close>

fun getAvailablePorts_calls ::
  "(QDateTime \<Rightarrow> QString) \<Rightarrow> (QDateTime \<times> QSerialPortInfo list) list \<Rightarrow> DeviceConnectionManager \<Rightarrow>
   SerialPortInfo list list \<times> DeviceConnectionManager" where
  "getAvailablePorts_calls toString [] mgr = ([], mgr)"
| "getAvailablePorts_calls toString ((now, availablePorts) # calls) mgr =
     (let (ports, mgr1) = getAvailablePorts toString now availablePorts mgr;
          (rest, mgr2) = getAvailablePorts_calls toString calls mgr1
      in (ports # rest, mgr2))"

text \<open>
  \<open>DeviceConnectionManager::replay(const QString &)\<close>. It calls \<open>reset()\<close>, which the
  header declares and this file does not define: what \<open>reset\<close> does to the manager is
  the parameter \<open>reset\<close>. The diagnostics of the load are returned beside the manager.
\<close>

definition replay ::
  "(DeviceConnectionManager \<Rightarrow> DeviceConnectionManager) \<Rightarrow>
   factories \<Rightarrow> (QString \<Rightarrow> QDateTime) \<Rightarrow> QDateTime \<Rightarrow> token list \<Rightarrow> DeviceConnectionManager \<Rightarrow>
   DeviceConnectionManager \<times> diagnostic list" where
  "replay reset s_factories fromString now string mgr =
     (let xml = QXmlStreamReader string;
          mgr = reset mgr;
          (r, ds) = XmlReplay_new s_factories fromString now xml
      in (mgr\<lparr>m_replay := Some r\<rparr>, ds))"

text \<open>
  \<open>DeviceConnectionManager::record(QString &)\<close>: the recording before, if any, is
  deleted, which completes its document (returned here), and a new one starts.
\<close>

definition record_string :: "DeviceConnectionManager \<Rightarrow> DeviceConnectionManager \<times> token list option" where
  "record_string mgr =
     (let closed = (case m_record mgr of None \<Rightarrow> None | Some w \<Rightarrow> Some (epilogue (m_xml w)))
      in (mgr\<lparr>m_record := Some XmlRecord_new\<rparr>, closed))"

section \<open>The serial port\<close>

text \<open>
  \<open>SetValueEvent\<close>: the values by name and the names in the order they were set.
\<close>

record SetValueEvent =
  m_values :: "QString \<rightharpoonup> int"
  m_keys :: "QString list"

definition SetValueEvent_set :: "QString \<Rightarrow> int \<Rightarrow> SetValueEvent \<Rightarrow> SetValueEvent" where
  "SetValueEvent_set name val event =
     event\<lparr>m_values := (m_values event)(name \<mapsto> val), m_keys := m_keys event @ [name]\<rparr>"

definition SetValueEvent_new :: "QString \<Rightarrow> int \<Rightarrow> SetValueEvent" where
  "SetValueEvent_new name val =
     SetValueEvent_set name val \<lparr>m_values = Map.empty, m_keys = []\<rparr>"

definition SetValueEvent_ok :: "SetValueEvent \<Rightarrow> bool" where
  "SetValueEvent_ok event = ((''error'' \<in> dom (m_values event)) = False)"

text \<open>\<open>operator<<(QXmlStreamWriter &, const SetValueEvent &)\<close> and \<open>operator QString\<close>.\<close>

fun write_keys :: "QString list \<Rightarrow> SetValueEvent \<Rightarrow> QXmlStreamWriter \<Rightarrow> QXmlStreamWriter" where
  "write_keys [] event xml = xml"
| "write_keys (key # keys) event xml =
     write_keys keys event
       (writeAttribute key
          (QString_number (case m_values event key of None \<Rightarrow> 0 | Some v \<Rightarrow> v)) xml)"

definition SetValueEvent_write :: "SetValueEvent \<Rightarrow> QXmlStreamWriter \<Rightarrow> QXmlStreamWriter" where
  "SetValueEvent_write event xml =
     writeEndElement (write_keys (m_keys event) event (writeStartElement ''set'' xml))"

definition SetValueEvent_toQString :: "SetValueEvent \<Rightarrow> token list" where
  "SetValueEvent_toQString event = SetValueEvent_write event []"

text \<open>
  What the setters see of the \<open>QSerialPort\<close> they wrap: whether it accepts a setting,
  and the error code it reports after refusing one.
\<close>

record QSerialPort =
  port_setBaudRate :: "int \<Rightarrow> int \<Rightarrow> bool"
  port_setDataBits :: "int \<Rightarrow> bool"
  port_setParity :: "int \<Rightarrow> bool"
  port_setStopBits :: "int \<Rightarrow> bool"
  port_setFlowControl :: "int \<Rightarrow> bool"
  port_error :: int

text \<open>
  The setters run in a process that holds the connection manager, with its recording,
  and the debug output (\<open>qDebug()\<close>), one entry per line printed.
\<close>

record process =
  manager :: DeviceConnectionManager
  debug :: "token list list"

definition qDebug :: "token list \<Rightarrow> process \<Rightarrow> process" where
  "qDebug line p = p\<lparr>debug := debug p @ [line]\<rparr>"

definition setBaudRate :: "QSerialPort \<Rightarrow> int \<Rightarrow> int \<Rightarrow> process \<Rightarrow> bool \<times> process" where
  "setBaudRate m_port baudRate directions p =
     (let event = SetValueEvent_new ''baudRate'' baudRate;
          event = SetValueEvent_set ''directions'' directions event;
          ok = port_setBaudRate m_port baudRate directions;
          event = (if \<not> ok then SetValueEvent_set ''error'' (port_error m_port) event else event);
          p = qDebug (SetValueEvent_toQString event) p
      in (SetValueEvent_ok event, p))"

definition setDataBits :: "QSerialPort \<Rightarrow> int \<Rightarrow> process \<Rightarrow> bool \<times> process" where
  "setDataBits m_port dataBits p =
     (let event = SetValueEvent_new ''setDataBits'' dataBits;
          ok = port_setDataBits m_port dataBits;
          event = (if \<not> ok then SetValueEvent_set ''error'' (port_error m_port) event else event);
          p = qDebug (SetValueEvent_toQString event) p
      in (SetValueEvent_ok event, p))"

definition setParity :: "QSerialPort \<Rightarrow> int \<Rightarrow> process \<Rightarrow> bool \<times> process" where
  "setParity m_port parity p =
     (let event = SetValueEvent_new ''setParity'' parity;
          ok = port_setParity m_port parity;
          event = (if \<not> ok then SetValueEvent_set ''error'' (port_error m_port) event else event);
          p = qDebug (SetValueEvent_toQString event) p
      in (SetValueEvent_ok event, p))"

definition setStopBits :: "QSerialPort \<Rightarrow> int \<Rightarrow> process \<Rightarrow> bool \<times> process" where
  "setStopBits m_port stopBits p =
     (let event = SetValueEvent_new ''setStopBits'' stopBits;
          ok = port_setStopBits m_port stopBits;
          event = (if \<not> ok then SetValueEvent_set ''error'' (port_error m_port) event else event);
          p = qDebug (SetValueEvent_toQString event) p
      in (SetValueEvent_ok event, p))"

definition setFlowControl :: "QSerialPort \<Rightarrow> int \<Rightarrow> process \<Rightarrow> bool \<times> process" where
  "setFlowControl m_port flowControl p =
     (let event = SetValueEvent_new ''setFlowControl'' flowControl;
          ok = port_setFlowControl m_port flowControl;
          event = (if \<not> ok then SetValueEvent_set ''error'' (port_error m_port) event else event);
          p = qDebug (SetValueEvent_toQString event) p
      in (SetValueEvent_ok event, p))"

section \<open>Replaying the list of ports\<close>

text \<open>The events a store holds for \<open>getAvailablePorts\<close>, none when the tag is absent.\<close>

definition stored_ports_events :: "XmlReplay \<Rightarrow> GetAvailablePortsEvent list" where
  "stored_ports_events r =
     (case m_events r GetAvailablePortsEvent_TAG of None \<Rightarrow> [] | Some es \<Rightarrow> es)"

lemma getNextEvent_GetAvailablePorts_step:
  "getNextEvent_GetAvailablePorts r = (e, r') \<Longrightarrow>
   e = (if cursor r GetAvailablePortsEvent_TAG < length (stored_ports_events r)
        then Some (stored_ports_events r ! cursor r GetAvailablePortsEvent_TAG) else None)
   \<and> stored_ports_events r' = stored_ports_events r
   \<and> cursor r' GetAvailablePortsEvent_TAG =
       (if cursor r GetAvailablePortsEvent_TAG < length (stored_ports_events r)
        then cursor r GetAvailablePortsEvent_TAG + 1 else cursor r GetAvailablePortsEvent_TAG)"
  by (auto simp: getNextEvent_GetAvailablePorts_def getNextEvent_def stored_ports_events_def
      cursor_def Let_def split: option.splits if_splits)

lemma getAvailablePorts_replay_step:
  assumes "m_replay mgr = Some r"
  shows "\<exists>r'. m_replay (snd (getAvailablePorts toString now availablePorts mgr)) = Some r'
      \<and> stored_ports_events r' = stored_ports_events r
      \<and> cursor r' GetAvailablePortsEvent_TAG =
          (if cursor r GetAvailablePortsEvent_TAG < length (stored_ports_events r)
           then cursor r GetAvailablePortsEvent_TAG + 1 else cursor r GetAvailablePortsEvent_TAG)
      \<and> fst (getAvailablePorts toString now availablePorts mgr) =
          (if cursor r GetAvailablePortsEvent_TAG < length (stored_ports_events r)
           then m_ports (stored_ports_events r ! cursor r GetAvailablePortsEvent_TAG)
           else m_serialPorts mgr)
      \<and> m_serialPorts (snd (getAvailablePorts toString now availablePorts mgr)) =
          fst (getAvailablePorts toString now availablePorts mgr)"
proof (cases "getNextEvent_GetAvailablePorts r")
  case (Pair e r')
  note st = getNextEvent_GetAvailablePorts_step [OF Pair]
  show ?thesis
  proof (cases "cursor r GetAvailablePortsEvent_TAG < length (stored_ports_events r)")
    case True
    with st show ?thesis
      using assms Pair by (simp add: getAvailablePorts_def Let_def)
  next
    case False
    with st show ?thesis
      using assms Pair by (simp add: getAvailablePorts_def Let_def)
  qed
qed

lemma getAvailablePorts_calls_replay:
  "m_replay mgr = Some r \<Longrightarrow> cursor r GetAvailablePortsEvent_TAG = c \<Longrightarrow>
   stored_ports_events r = events \<Longrightarrow>
   fst (getAvailablePorts_calls toString calls mgr) =
     map m_ports (take (length calls) (drop c events))
     @ replicate (length calls - (length events - c))
         (if c < length events then m_ports (last events) else m_serialPorts mgr)"
proof (induction calls arbitrary: mgr r c)
  case Nil
  then show ?case by simp
next
  case (Cons call calls)
  obtain now availablePorts where call: "call = (now, availablePorts)"
    by (cases call)
  let ?res = "getAvailablePorts toString now availablePorts mgr"
  from getAvailablePorts_replay_step [OF Cons.prems(1), of toString now availablePorts]
  obtain r' where r': "m_replay (snd ?res) = Some r'"
    and ev': "stored_ports_events r' = events"
    and c': "cursor r' GetAvailablePortsEvent_TAG = (if c < length events then c + 1 else c)"
    and res: "fst ?res = (if c < length events then m_ports (events ! c) else m_serialPorts mgr)"
    and cache: "m_serialPorts (snd ?res) = fst ?res"
    using Cons.prems(2,3) by auto
  have unfold: "fst (getAvailablePorts_calls toString (call # calls) mgr) =
      fst ?res # fst (getAvailablePorts_calls toString calls (snd ?res))"
    by (simp add: call split_def Let_def)
  show ?case
  proof (cases "c < length events")
    case True
    have c1: "cursor r' GetAvailablePortsEvent_TAG = c + 1"
      using c' True by simp
    have nonempty: "events \<noteq> []"
      using True by auto
    have fallback: "(if c + 1 < length events then m_ports (last events)
          else m_serialPorts (snd ?res)) = m_ports (last events)"
    proof (cases "c + 1 < length events")
      case True
      then show ?thesis by simp
    next
      case False
      with \<open>c < length events\<close> have "c = length events - 1" by arith
      then have "events ! c = last events"
        using last_conv_nth [OF nonempty] by simp
      then show ?thesis
        using False cache res \<open>c < length events\<close> by simp
    qed
    have ih: "fst (getAvailablePorts_calls toString calls (snd ?res)) =
        map m_ports (take (length calls) (drop (c + 1) events))
        @ replicate (length calls - (length events - (c + 1))) (m_ports (last events))"
      using Cons.IH [OF r' c1 ev'] fallback by simp
    have hd: "take (Suc (length calls)) (drop c events)
        = events ! c # take (length calls) (drop (c + 1) events)"
      using True by (simp add: Cons_nth_drop_Suc [symmetric])
    have rep: "Suc (length calls) - (length events - c)
        = length calls - (length events - (c + 1))"
      using True by arith
    have first: "fst ?res = m_ports (events ! c)"
      using res True by simp
    have "fst (getAvailablePorts_calls toString (call # calls) mgr) =
        m_ports (events ! c) # map m_ports (take (length calls) (drop (c + 1) events))
        @ replicate (length calls - (length events - (c + 1))) (m_ports (last events))"
      by (simp only: unfold first ih append_Cons)
    also have "\<dots> = map m_ports (take (length (call # calls)) (drop c events))
        @ replicate (length (call # calls) - (length events - c)) (m_ports (last events))"
      by (simp only: length_Cons hd rep list.map append_Cons)
    finally show ?thesis
      using True by simp
  next
    case False
    have c0: "cursor r' GetAvailablePortsEvent_TAG = c"
      using c' False by simp
    have first: "fst ?res = m_serialPorts mgr"
      using res False by simp
    have ih: "fst (getAvailablePorts_calls toString calls (snd ?res)) =
        replicate (length calls) (m_serialPorts mgr)"
      using Cons.IH [OF r' c0 ev'] False cache first by simp
    have "fst (getAvailablePorts_calls toString (call # calls) mgr) =
        replicate (Suc (length calls)) (m_serialPorts mgr)"
      by (simp only: unfold first ih replicate_Suc)
    then show ?thesis
      using False by simp
  qed
qed

text \<open>
  C8. With a replay active, \<open>getAvailablePorts\<close> gives the same list and leaves the
  same manager whatever ports are attached: the attached ports are not consulted. While
  the store has an event left, the list is that event's.
\<close>

theorem getAvailablePorts_replay_ignores_ports:
  assumes "m_replay mgr = Some r"
  shows "getAvailablePorts toString now ports1 mgr = getAvailablePorts toString now ports2 mgr
         \<and> (cursor r GetAvailablePortsEvent_TAG < length (stored_ports_events r) \<longrightarrow>
              fst (getAvailablePorts toString now ports1 mgr) =
                m_ports (stored_ports_events r ! cursor r GetAvailablePortsEvent_TAG))"
proof -
  have same: "getAvailablePorts toString now ports1 mgr
      = getAvailablePorts toString now ports2 mgr"
    using assms by (simp add: getAvailablePorts_def)
  from getAvailablePorts_replay_step [OF assms, of toString now ports1]
  have first: "fst (getAvailablePorts toString now ports1 mgr) =
      (if cursor r GetAvailablePortsEvent_TAG < length (stored_ports_events r)
       then m_ports (stored_ports_events r ! cursor r GetAvailablePortsEvent_TAG)
       else m_serialPorts mgr)"
    by blast
  show ?thesis
    using same first by simp
qed

theorem getAvailablePorts_replay_ignores_ports_witness:
  "getAvailablePorts (\<lambda>t. []) 10 [] (DeviceConnectionManager_new\<lparr>m_replay := Some store_two\<rparr>)
     = getAvailablePorts (\<lambda>t. []) 10 [q_com1, q_usb0]
         (DeviceConnectionManager_new\<lparr>m_replay := Some store_two\<rparr>)
   \<and> fst (getAvailablePorts (\<lambda>t. []) 10 []
         (DeviceConnectionManager_new\<lparr>m_replay := Some store_two\<rparr>))
     = [SerialPortInfo_of q_usb0]"
proof -
  have two: "stored_ports_events store_two = [event_usb0, event_com1]"
    by (simp add: stored_ports_events_def store_two_def GetAvailablePortsEvent_TAG_def)
  have fresh_two: "cursor store_two GetAvailablePortsEvent_TAG = 0"
    by (simp add: store_two_def cursor_def)
  have active_two: "m_replay (DeviceConnectionManager_new\<lparr>m_replay := Some store_two\<rparr>)
      = Some store_two"
    by simp
  note inst = getAvailablePorts_replay_ignores_ports
    [OF active_two, of "\<lambda>t. []" 10 "[]" "[q_com1, q_usb0]"]
  have same: "getAvailablePorts (\<lambda>t. []) 10 []
        (DeviceConnectionManager_new\<lparr>m_replay := Some store_two\<rparr>)
      = getAvailablePorts (\<lambda>t. []) 10 [q_com1, q_usb0]
          (DeviceConnectionManager_new\<lparr>m_replay := Some store_two\<rparr>)"
    using inst by (rule conjunct1)
  have first: "fst (getAvailablePorts (\<lambda>t. []) 10 []
        (DeviceConnectionManager_new\<lparr>m_replay := Some store_two\<rparr>))
      = [SerialPortInfo_of q_usb0]"
    using conjunct2 [OF inst] by (simp add: two fresh_two event_usb0_def)
  from same first show ?thesis by (rule conjI)
qed

section \<open>What a refused setting leaves behind\<close>

lemma writeAttribute_last:
  "writeAttribute k v (w @ [StartElement n a]) = w @ [StartElement n (a @ [(k, v)])]"
  by (simp add: writeAttribute_def)

lemma write_keys_last:
  "write_keys keys event (w @ [StartElement n a]) =
     w @ [StartElement n
            (a @ map (\<lambda>key. (key, QString_number
                        (case m_values event key of None \<Rightarrow> 0 | Some v \<Rightarrow> v))) keys)]"
  by (induction keys arbitrary: a) (simp_all add: writeAttribute_last)

lemma SetValueEvent_toQString_eq:
  "SetValueEvent_toQString event =
     [StartElement ''set''
        (map (\<lambda>key. (key, QString_number
                 (case m_values event key of None \<Rightarrow> 0 | Some v \<Rightarrow> v))) (m_keys event)),
      EndElement]"
  using write_keys_last [of "m_keys event" event "[]" "''set''" "[]"]
  by (simp add: SetValueEvent_toQString_def SetValueEvent_write_def writeStartElement_def
      writeEndElement_def)

text \<open>The outcome of a setter \<open>name\<close> with value \<open>val\<close>, as one line of debug output.\<close>

definition outcome_line :: "(QString \<times> int) list \<Rightarrow> bool \<Rightarrow> int \<Rightarrow> token list" where
  "outcome_line settings ok error =
     [StartElement ''set''
        (map (\<lambda>(name, val). (name, QString_number val)) settings
         @ (if ok then [] else [(''error'', QString_number error)])),
      EndElement]"

text \<open>A port that refuses every setting with error code 1, and a process that is recording.\<close>

definition refusing_port :: QSerialPort where
  "refusing_port = \<lparr>port_setBaudRate = (\<lambda>b d. False), port_setDataBits = (\<lambda>v. False),
     port_setParity = (\<lambda>v. False), port_setStopBits = (\<lambda>v. False),
     port_setFlowControl = (\<lambda>v. False), port_error = 1\<rparr>"

definition recording_process :: process where
  "recording_process =
     \<lparr>manager = DeviceConnectionManager_new\<lparr>m_record := Some XmlRecord_new\<rparr>, debug = []\<rparr>"

text \<open>
  C7, as the code has it. Each of the five setters returns what the port answered,
  so false when the port refuses; it prints one line of debug output, the \<open>set\<close>
  element with the attempted value (and the directions, for the baud rate) and, when
  the port refused, the error code; and it leaves the connection manager, with its
  recording, exactly as it was: the outcome is not written to the trace.
\<close>

theorem setters_report_failure_to_debug_output:
  "setBaudRate m_port baudRate directions p =
     (port_setBaudRate m_port baudRate directions,
      p\<lparr>debug := debug p @ [outcome_line [(''baudRate'', baudRate), (''directions'', directions)]
         (port_setBaudRate m_port baudRate directions) (port_error m_port)]\<rparr>)
   \<and> setDataBits m_port v p =
     (port_setDataBits m_port v,
      p\<lparr>debug := debug p @ [outcome_line [(''setDataBits'', v)]
         (port_setDataBits m_port v) (port_error m_port)]\<rparr>)
   \<and> setParity m_port v p =
     (port_setParity m_port v,
      p\<lparr>debug := debug p @ [outcome_line [(''setParity'', v)]
         (port_setParity m_port v) (port_error m_port)]\<rparr>)
   \<and> setStopBits m_port v p =
     (port_setStopBits m_port v,
      p\<lparr>debug := debug p @ [outcome_line [(''setStopBits'', v)]
         (port_setStopBits m_port v) (port_error m_port)]\<rparr>)
   \<and> setFlowControl m_port v p =
     (port_setFlowControl m_port v,
      p\<lparr>debug := debug p @ [outcome_line [(''setFlowControl'', v)]
         (port_setFlowControl m_port v) (port_error m_port)]\<rparr>)
   \<and> manager (snd (setBaudRate m_port baudRate directions p)) = manager p
   \<and> manager (snd (setDataBits m_port v p)) = manager p
   \<and> manager (snd (setParity m_port v p)) = manager p
   \<and> manager (snd (setStopBits m_port v p)) = manager p
   \<and> manager (snd (setFlowControl m_port v p)) = manager p"
  by (simp add: setBaudRate_def setDataBits_def setParity_def setStopBits_def
      setFlowControl_def SetValueEvent_toQString_eq outcome_line_def qDebug_def
      SetValueEvent_ok_def SetValueEvent_set_def SetValueEvent_new_def Let_def)

text \<open>
  The claim as the spec has it fails: with a recording active, a refused baud rate
  returns false, and the recording still holds its two opening elements and nothing
  else.
\<close>

theorem refused_setting_not_recorded:
  "fst (setBaudRate refusing_port 19200 3 recording_process) = False
   \<and> m_record (manager recording_process)
       = Some \<lparr>m_xml = [StartElement ''xmlreplay'' [], StartElement ''events'' []]\<rparr>
   \<and> m_record (manager (snd (setBaudRate refusing_port 19200 3 recording_process)))
       = Some \<lparr>m_xml = [StartElement ''xmlreplay'' [], StartElement ''events'' []]\<rparr>"
  by (simp add: setBaudRate_def refusing_port_def recording_process_def qDebug_def
      SetValueEvent_ok_def SetValueEvent_set_def SetValueEvent_new_def Let_def
      DeviceConnectionManager_new_def XmlRecord_new_def prologue_def writeStartElement_def)

section \<open>The time of a deserialized event\<close>

text \<open>
  C2. The code reads the \<open>time\<close> attribute into a local variable and never stores it:
  whatever the attribute says and however it parses, the event that comes out of
  \<open>operator>>\<close> has the time it had going in, which for an event made by the factory
  is the time of its construction.
\<close>

theorem XmlReplayEvent_read_keeps_creation_time:
  "m_time (fst (snd (XmlReplayEvent_read fromString now xml event))) = m_time event
   \<and> m_time (fst (snd (XmlReplayEvent_read fromString now
        \<lparr>token = Some (StartElement ''getAvailablePorts'' [(''time'', stamp)]),
         input = EndElement # rest\<rparr>
        (GetAvailablePortsEvent_createInstance created)))) = created"
  by (simp add: XmlReplayEvent_read_def GetAvailablePortsEvent_read_def split_def Let_def
      GetAvailablePortsEvent_createInstance_def)

section \<open>Descriptors through the stream\<close>

text \<open>
  \<open>SerialPortInfo::operator QString\<close> writes the descriptor to a string of its own,
  and \<open>SerialPortInfo(const QString &)\<close> reads the first start element of a string
  into a new descriptor.
\<close>

definition SerialPortInfo_toQString :: "SerialPortInfo \<Rightarrow> token list" where
  "SerialPortInfo_toQString info = SerialPortInfo_write info []"

definition SerialPortInfo_fromQString :: "token list \<Rightarrow> SerialPortInfo \<times> diagnostic list" where
  "SerialPortInfo_fromQString data =
     (let xml = QXmlStreamReader data;
          (b, xml) = readNextStartElement xml;
          (xml, info, ds) = SerialPortInfo_read xml SerialPortInfo_null
      in (info, ds))"

text \<open>
  C10. The null descriptor, whose bag is empty, is written as a \<open>serial\<close> element with
  no attributes; reading that element back gives a descriptor with an empty bag and no
  diagnostic, equal to the original under \<open>operator==\<close>. What the constructor makes of
  a null \<open>QSerialPortInfo\<close> is this null descriptor.
\<close>

theorem null_descriptor_round_trip:
  "isNull SerialPortInfo_null
   \<and> SerialPortInfo_of (q\<lparr>q_isNull := True\<rparr>) = SerialPortInfo_null
   \<and> SerialPortInfo_toQString SerialPortInfo_null = [StartElement ''serial'' [], EndElement]
   \<and> snd (SerialPortInfo_fromQString (SerialPortInfo_toQString SerialPortInfo_null)) = []
   \<and> m_info (fst (SerialPortInfo_fromQString (SerialPortInfo_toQString SerialPortInfo_null)))
       = Map.empty
   \<and> SerialPortInfo_eq
        (fst (SerialPortInfo_fromQString (SerialPortInfo_toQString SerialPortInfo_null)))
        SerialPortInfo_null"
  by (simp add: isNull_def SerialPortInfo_null_def SerialPortInfo_of_def
      SerialPortInfo_toQString_def SerialPortInfo_write_def writeStartElement_def
      writeEndElement_def SerialPortInfo_fromQString_def QXmlStreamReader_def
      readNextStartElement_def SerialPortInfo_read_def atEnd_def isStartElement_def
      xml_name_def attributes_def SerialPortInfo_eq_def)

section \<open>Identifiers that do not parse\<close>

text \<open>The two attribute names whose values are parsed as numbers.\<close>

definition is_identifier_name :: "QString \<Rightarrow> bool" where
  "is_identifier_name name = (name = ''vendorIdentifier'' \<or> name = ''productIdentifier'')"

text \<open>What one attribute leaves in the bag under its name, if anything.\<close>

definition stored_value :: "QString \<Rightarrow> QString \<Rightarrow> QVariant option" where
  "stored_value name val =
     (if is_identifier_name name
      then (case QString_toUInt0 val of
              Some n \<Rightarrow> Some (VInt (uint (word_of_nat n :: 16 word)))
            | None \<Rightarrow> None)
      else Some (VString val))"

lemma read_attributes_Cons:
  "fst (read_attributes ((name, val) # as) info) =
     fst (read_attributes as
        (case stored_value name val of None \<Rightarrow> info | Some q \<Rightarrow> set_info name q info))"
  by (simp add: stored_value_def is_identifier_name_def split_def Let_def split: option.splits)

lemma read_attributes_info:
  "distinct (map fst as) \<Longrightarrow>
   m_info (fst (read_attributes as info)) k =
     (case map_of as k of
        None \<Rightarrow> m_info info k
      | Some v \<Rightarrow> (case stored_value k v of None \<Rightarrow> m_info info k | Some q \<Rightarrow> Some q))"
proof (induction as arbitrary: info)
  case Nil
  then show ?case by simp
next
  case (Cons a as)
  obtain name val where a: "a = (name, val)" by (cases a)
  from Cons.prems a have fresh: "map_of as name = None" and dist: "distinct (map fst as)"
    by (auto simp: map_of_eq_None_iff)
  let ?info = "case stored_value name val of None \<Rightarrow> info | Some q \<Rightarrow> set_info name q info"
  have step: "m_info (fst (read_attributes (a # as) info)) k =
      (case map_of as k of
         None \<Rightarrow> m_info ?info k
       | Some v \<Rightarrow> (case stored_value k v of None \<Rightarrow> m_info ?info k | Some q \<Rightarrow> Some q))"
    unfolding a read_attributes_Cons by (rule Cons.IH [OF dist])
  show ?case
  proof (cases "k = name")
    case True
    then show ?thesis
      unfolding step using fresh by (simp add: a set_info_def split: option.splits)
  next
    case False
    then have same: "m_info ?info k = m_info info k"
      by (simp add: set_info_def split: option.splits)
    show ?thesis
      unfolding step same using False by (simp add: a)
  qed
qed

lemma read_attributes_diagnostics:
  "snd (read_attributes as info) =
     map (\<lambda>(name, val). InvalidValue name val)
       (filter (\<lambda>(name, val). is_identifier_name name \<and> QString_toUInt0 val = None) as)"
  by (induction as arbitrary: info)
     (auto simp: is_identifier_name_def split_def split: option.splits)

text \<open>
  C9. A \<open>serial\<close> element is read into a new descriptor; its attribute names are
  distinct, as XML has them. If the value of \<open>vendorIdentifier\<close> or
  \<open>productIdentifier\<close> does not parse, that key is absent from the bag afterwards (so
  \<open>has...Identifier\<close> is false, not a zero identifier) and the diagnostic for it is
  emitted; every other attribute of the element is in the bag: a string under its own
  name, or for the other identifier the parsed number, if it parses.
\<close>

theorem unparsed_identifier_left_absent:
  assumes "distinct (map fst attrs)"
    and "(k, v) \<in> set attrs"
    and "is_identifier_name k"
    and "QString_toUInt0 v = None"
  shows "(let (xml', info, ds) =
              SerialPortInfo_read \<lparr>token = Some (StartElement ''serial'' attrs), input = rest\<rparr>
                SerialPortInfo_null
          in m_info info k = None
             \<and> (k = ''vendorIdentifier'' \<longrightarrow> hasVendorIdentifier info = False)
             \<and> (k = ''productIdentifier'' \<longrightarrow> hasProductIdentifier info = False)
             \<and> InvalidValue k v \<in> set ds
             \<and> (\<forall>(name, val) \<in> set attrs.
                  if is_identifier_name name
                  then m_info info name =
                         (case QString_toUInt0 val of
                            Some n \<Rightarrow> Some (VInt (uint (word_of_nat n :: 16 word)))
                          | None \<Rightarrow> None)
                  else m_info info name = Some (VString val)))"
proof -
  let ?r = "read_attributes attrs SerialPortInfo_null"
  have rd: "SerialPortInfo_read \<lparr>token = Some (StartElement ''serial'' attrs), input = rest\<rparr>
      SerialPortInfo_null
      = (skipCurrentElement \<lparr>token = Some (StartElement ''serial'' attrs), input = rest\<rparr>,
         fst ?r, snd ?r)"
    by (simp add: SerialPortInfo_read_def atEnd_def isStartElement_def xml_name_def
        attributes_def split_def)
  have look: "\<And>name val. (name, val) \<in> set attrs \<Longrightarrow> map_of attrs name = Some val"
    using assms(1) by simp
  have info: "\<And>name val. (name, val) \<in> set attrs \<Longrightarrow>
      m_info (fst ?r) name =
        (if is_identifier_name name
         then (case QString_toUInt0 val of
                 Some n \<Rightarrow> Some (VInt (uint (word_of_nat n :: 16 word)))
               | None \<Rightarrow> None)
         else Some (VString val))"
    using read_attributes_info [OF assms(1), of SerialPortInfo_null] look
    by (simp add: SerialPortInfo_null_def stored_value_def split: option.splits)
  have absent: "m_info (fst ?r) k = None"
    using info [OF assms(2)] assms(3,4) by simp
  have diag: "InvalidValue k v \<in> set (snd ?r)"
    using assms(2,3,4) by (force simp: read_attributes_diagnostics)
  have others: "\<forall>(name, val) \<in> set attrs.
      if is_identifier_name name
      then m_info (fst ?r) name =
             (case QString_toUInt0 val of
                Some n \<Rightarrow> Some (VInt (uint (word_of_nat n :: 16 word)))
              | None \<Rightarrow> None)
      else m_info (fst ?r) name = Some (VString val)"
    using info by auto
  have vid: "k = ''vendorIdentifier'' \<longrightarrow> hasVendorIdentifier (fst ?r) = False"
    using absent by (auto simp: hasVendorIdentifier_def)
  have pid: "k = ''productIdentifier'' \<longrightarrow> hasProductIdentifier (fst ?r) = False"
    using absent by (auto simp: hasProductIdentifier_def)
  from absent vid pid diag others show ?thesis
    by (simp only: rd Let_def prod.case)
qed

lemma toUInt0_zz: "QString_toUInt0 ''zz'' = None"
  by (simp add: QString_toUInt0_def trimmed_def is_space_def parse_number_def
      digit_value_def Let_def)

lemma toUInt0_0x6001: "QString_toUInt0 ''0x6001'' = Some 24577"
  by (simp add: QString_toUInt0_def trimmed_def is_space_def parse_number_def
      digit_value_def Let_def)

theorem unparsed_identifier_left_absent_witness:
  "(let (xml', info, ds) =
        SerialPortInfo_read
          \<lparr>token = Some (StartElement ''serial''
             [(''portName'', ''COM1''), (''vendorIdentifier'', ''zz''),
              (''productIdentifier'', ''0x6001'')]),
           input = [EndElement]\<rparr>
          SerialPortInfo_null
    in m_info info ''vendorIdentifier'' = None
       \<and> hasVendorIdentifier info = False
       \<and> ds = [InvalidValue ''vendorIdentifier'' ''zz'']
       \<and> m_info info ''portName'' = Some (VString ''COM1'')
       \<and> m_info info ''productIdentifier'' = Some (VInt 24577))"
proof -
  have d: "distinct (map fst [(''portName'', ''COM1''), (''vendorIdentifier'', ''zz''),
      (''productIdentifier'', ''0x6001'')])"
    by simp
  have m: "(''vendorIdentifier'', ''zz'') \<in> set [(''portName'', ''COM1''),
      (''vendorIdentifier'', ''zz''), (''productIdentifier'', ''0x6001'')]"
    by simp
  have i: "is_identifier_name ''vendorIdentifier''"
    by (simp add: is_identifier_name_def)
  from unparsed_identifier_left_absent [OF d m i toUInt0_zz, of "[EndElement]"]
  show ?thesis
    by (simp add: SerialPortInfo_read_def atEnd_def isStartElement_def xml_name_def
        attributes_def split_def Let_def toUInt0_zz toUInt0_0x6001 set_info_def
        SerialPortInfo_null_def hasVendorIdentifier_def is_identifier_name_def)
qed

section \<open>Documents\<close>

text \<open>
  A well-formed document is a tree: an element has a name, attributes and children;
  between elements there may be text. The reader sees its tokens in document order.
\<close>

datatype xml_node =
    Element QString "(QString \<times> QString) list" "xml_node list"
  | Text QString

fun tokens_of :: "xml_node \<Rightarrow> token list" where
  "tokens_of (Text t) = [Characters t]"
| "tokens_of (Element n a cs) = StartElement n a # concat (map tokens_of cs) @ [EndElement]"

definition tokens_of_all :: "xml_node list \<Rightarrow> token list" where
  "tokens_of_all cs = concat (map tokens_of cs)"

fun is_element :: "xml_node \<Rightarrow> bool" where
  "is_element (Element n a cs) = True"
| "is_element (Text t) = False"

lemma tokens_of_all_simps [simp]:
  "tokens_of_all [] = []"
  "tokens_of_all (c # cs) = tokens_of c @ tokens_of_all cs"
  by (simp_all add: tokens_of_all_def)

lemma tokens_of_Element [simp]:
  "tokens_of (Element n a cs) = StartElement n a # tokens_of_all cs @ [EndElement]"
  by (simp add: tokens_of_all_def)

declare tokens_of.simps(2) [simp del]

lemma skip_depth_current:
  "skip_depth (Suc d) cur ts = skip_depth (Suc d) None ts"
  by (cases "(Suc d, cur, ts)" rule: skip_depth.cases) simp_all

lemma skip_depth_children:
  assumes "\<And>c d cur ts. c \<in> set cs \<Longrightarrow>
      skip_depth (Suc d) cur (tokens_of c @ ts) = skip_depth (Suc d) None ts"
  shows "skip_depth (Suc d) cur (tokens_of_all cs @ ts) = skip_depth (Suc d) None ts"
  using assms
proof (induction cs arbitrary: cur)
  case Nil
  show ?case by (simp add: skip_depth_current [of d cur])
next
  case (Cons c cs)
  have "skip_depth (Suc d) cur (tokens_of c @ tokens_of_all cs @ ts)
      = skip_depth (Suc d) None (tokens_of_all cs @ ts)"
    by (rule Cons.prems) simp
  also have "\<dots> = skip_depth (Suc d) None ts"
    by (rule Cons.IH) (simp add: Cons.prems)
  finally show ?case by simp
qed

lemma skip_depth_node:
  "skip_depth (Suc d) cur (tokens_of c @ ts) = skip_depth (Suc d) None ts"
proof (induction c arbitrary: d cur ts)
  case (Text t)
  show ?case by (simp add: skip_depth_current [of d "Some (Characters t)"])
next
  case (Element n a cs)
  have "skip_depth (Suc d) cur (tokens_of (Element n a cs) @ ts)
      = skip_depth (Suc (Suc d)) (Some (StartElement n a)) (tokens_of_all cs @ EndElement # ts)"
    by (simp add: tokens_of_Element)
  also have "\<dots> = skip_depth (Suc (Suc d)) None (EndElement # ts)"
    by (rule skip_depth_children) (rule Element.IH)
  also have "\<dots> = skip_depth (Suc d) None ts"
    by (simp add: skip_depth_current [of d "Some EndElement"])
  finally show ?case .
qed

lemma skipCurrentElement_children:
  "skipCurrentElement \<lparr>token = cur, input = tokens_of_all cs @ EndElement # rest\<rparr>
     = \<lparr>token = Some EndElement, input = rest\<rparr>"
proof -
  have "skip_depth (Suc 0) cur (tokens_of_all cs @ EndElement # rest)
      = skip_depth (Suc 0) None (EndElement # rest)"
    by (rule skip_depth_children) (rule skip_depth_node)
  then show ?thesis
    by (simp add: skipCurrentElement_def)
qed

lemma readNextStartElement_Text:
  "readNextStartElement \<lparr>token = cur, input = tokens_of (Text t) @ ts\<rparr>
     = readNextStartElement \<lparr>token = cur', input = ts\<rparr>"
  by (simp add: readNextStartElement_def)

lemma readNextStartElement_Element:
  "readNextStartElement \<lparr>token = cur, input = tokens_of (Element n a cs) @ ts\<rparr>
     = (True, \<lparr>token = Some (StartElement n a),
               input = tokens_of_all cs @ EndElement # ts\<rparr>)"
  by (simp add: readNextStartElement_def)

lemma readNextStartElement_EndElement:
  "readNextStartElement \<lparr>token = cur, input = EndElement # ts\<rparr>
     = (False, \<lparr>token = Some EndElement, input = ts\<rparr>)"
  by (simp add: readNextStartElement_def)

text \<open>
  What the list reader makes of one child element: the descriptor read from the
  attributes of a \<open>serial\<close> element, and the null descriptor with a diagnostic for an
  element of any other name.
\<close>

fun descriptor_of :: "xml_node \<Rightarrow> SerialPortInfo \<times> diagnostic list" where
  "descriptor_of (Element n a cs) =
     (if n = ''serial'' then read_attributes a SerialPortInfo_null
      else (SerialPortInfo_null, [NoSerialTag]))"
| "descriptor_of (Text t) = (SerialPortInfo_null, [])"

definition descriptors_of :: "xml_node list \<Rightarrow> SerialPortInfo list" where
  "descriptors_of cs = map (\<lambda>c. fst (descriptor_of c)) (filter is_element cs)"

definition descriptor_diagnostics :: "xml_node list \<Rightarrow> diagnostic list" where
  "descriptor_diagnostics cs = concat (map (\<lambda>c. snd (descriptor_of c)) (filter is_element cs))"

lemma SerialPortInfo_read_Element:
  "SerialPortInfo_read
     \<lparr>token = Some (StartElement n a), input = tokens_of_all cs @ EndElement # ts\<rparr>
     SerialPortInfo_null
   = (\<lparr>token = Some EndElement, input = ts\<rparr>,
      fst (descriptor_of (Element n a cs)), snd (descriptor_of (Element n a cs)))"
  by (simp add: SerialPortInfo_read_def skipCurrentElement_children atEnd_def
      isStartElement_def xml_name_def attributes_def split_def)

lemma QList_read_loop_same_input:
  "readNextStartElement xml = readNextStartElement xml' \<Longrightarrow>
   QList_read_loop xml list = QList_read_loop xml' list"
  by (subst QList_read_loop.simps, subst (2) QList_read_loop.simps) simp

lemma QList_read_loop_children:
  "QList_read_loop \<lparr>token = cur, input = tokens_of_all cs @ EndElement # rest\<rparr> list
     = (\<lparr>token = Some EndElement, input = rest\<rparr>,
        list @ descriptors_of cs, descriptor_diagnostics cs)"
proof (induction cs arbitrary: cur list)
  case Nil
  show ?case
    by (subst QList_read_loop.simps)
       (simp add: readNextStartElement_EndElement descriptors_of_def
          descriptor_diagnostics_def)
next
  case (Cons c cs)
  show ?case
  proof (cases c)
    case (Text t)
    have "QList_read_loop
        \<lparr>token = cur, input = tokens_of_all (c # cs) @ EndElement # rest\<rparr> list
        = QList_read_loop \<lparr>token = cur, input = tokens_of_all cs @ EndElement # rest\<rparr> list"
      unfolding Text
      by (rule QList_read_loop_same_input)
         (simp add: readNextStartElement_def)
    then show ?thesis
      using Cons.IH [of cur list]
      by (simp add: Text descriptors_of_def descriptor_diagnostics_def)
  next
    case (Element n a gs)
    have rd: "readNextStartElement
        \<lparr>token = cur, input = StartElement n a # tokens_of_all gs @ EndElement
           # tokens_of_all cs @ EndElement # rest\<rparr>
        = (True, \<lparr>token = Some (StartElement n a),
                  input = tokens_of_all gs @ EndElement # tokens_of_all cs @ EndElement # rest\<rparr>)"
      by (simp add: readNextStartElement_def)
    show ?thesis
      by (subst QList_read_loop.simps)
         (simp add: rd SerialPortInfo_read_Element Cons.IH Element descriptors_of_def
            descriptor_diagnostics_def Let_def del: descriptor_of.simps)
  qed
qed

section \<open>What a trace loads to\<close>

text \<open>\<open>s_factories.value(tag)\<close>: the factory of a tag, null when the tag is not registered.\<close>

definition factory_of :: "factories \<Rightarrow> QString \<Rightarrow> FactoryMethod" where
  "factory_of s_factories tag = (case s_factories tag of None \<Rightarrow> None | Some f \<Rightarrow> f)"

text \<open>
  The spec's account of loading, written out on the document. An event element whose
  name is registered gives one event: constructed by the factory, populated with the
  descriptors of its child elements. The events of a tag are those of the children of
  that name, in document order; text and elements of unregistered names give none.
\<close>

definition constructed_event ::
  "(QDateTime \<Rightarrow> GetAvailablePortsEvent) \<Rightarrow> QDateTime \<Rightarrow> xml_node list \<Rightarrow> GetAvailablePortsEvent" where
  "constructed_event f now gs = (f now)\<lparr>m_ports := descriptors_of gs\<rparr>"

fun events_named :: "factories \<Rightarrow> QDateTime \<Rightarrow> QString \<Rightarrow> xml_node list \<Rightarrow> GetAvailablePortsEvent list" where
  "events_named s_factories now tag [] = []"
| "events_named s_factories now tag (Text t # cs) = events_named s_factories now tag cs"
| "events_named s_factories now tag (Element n a gs # cs) =
     (if n = tag
      then (case factory_of s_factories n of
              None \<Rightarrow> []
            | Some f \<Rightarrow> [constructed_event f now gs])
      else [])
     @ events_named s_factories now tag cs"

text \<open>The diagnostics of the children of an events container, in document order.\<close>

fun children_diagnostics :: "factories \<Rightarrow> xml_node list \<Rightarrow> diagnostic list" where
  "children_diagnostics s_factories [] = []"
| "children_diagnostics s_factories (Text t # cs) = children_diagnostics s_factories cs"
| "children_diagnostics s_factories (Element n a gs # cs) =
     (case factory_of s_factories n of
        None \<Rightarrow> [NoEventClass n]
      | Some f \<Rightarrow>
          (if hasAttribute a ''time'' then [] else [MissingTimestamp n])
          @ descriptor_diagnostics gs)
     @ children_diagnostics s_factories cs"

text \<open>The store after the children of an events container went in, one after the other.\<close>

definition append_event :: "QString \<Rightarrow> GetAvailablePortsEvent \<Rightarrow> XmlReplay \<Rightarrow> XmlReplay" where
  "append_event n e r =
     r\<lparr>m_events := (m_events r)(n \<mapsto> (case m_events r n of None \<Rightarrow> [] | Some es \<Rightarrow> es) @ [e])\<rparr>"

fun load_children :: "factories \<Rightarrow> QDateTime \<Rightarrow> xml_node list \<Rightarrow> XmlReplay \<Rightarrow> XmlReplay" where
  "load_children s_factories now [] r = r"
| "load_children s_factories now (Text t # cs) r = load_children s_factories now cs r"
| "load_children s_factories now (Element n a gs # cs) r =
     (case factory_of s_factories n of
        None \<Rightarrow> load_children s_factories now cs r
      | Some f \<Rightarrow>
          load_children s_factories now cs (append_event n (constructed_event f now gs) r))"

lemma XmlReplayEvent_read_Element:
  "XmlReplayEvent_read fromString now
     \<lparr>token = Some (StartElement n a), input = tokens_of_all gs @ EndElement # ts\<rparr> event
   = (\<lparr>token = Some EndElement, input = ts\<rparr>,
      event\<lparr>m_ports := descriptors_of gs\<rparr>,
      (if hasAttribute a ''time'' then [] else [MissingTimestamp n]) @ descriptor_diagnostics gs)"
  by (simp add: XmlReplayEvent_read_def GetAvailablePortsEvent_read_def QList_read_def
      QList_read_loop_children attributes_def xml_name_def Let_def)

lemma deserializeEvents_same_input:
  "readNextStartElement xml = readNextStartElement xml' \<Longrightarrow>
   deserializeEvents s_factories fromString now xml r
     = deserializeEvents s_factories fromString now xml' r"
  by (subst deserializeEvents.simps, subst (2) deserializeEvents.simps) simp

lemma deserializeEvents_children:
  "deserializeEvents s_factories fromString now
     \<lparr>token = cur, input = tokens_of_all cs @ EndElement # rest\<rparr> r
   = (\<lparr>token = Some EndElement, input = rest\<rparr>,
      load_children s_factories now cs r, children_diagnostics s_factories cs)"
proof (induction cs arbitrary: cur r)
  case Nil
  show ?case
    by (subst deserializeEvents.simps) (simp add: readNextStartElement_EndElement)
next
  case (Cons c cs)
  show ?case
  proof (cases c)
    case (Text t)
    have "deserializeEvents s_factories fromString now
        \<lparr>token = cur, input = tokens_of_all (c # cs) @ EndElement # rest\<rparr> r
        = deserializeEvents s_factories fromString now
            \<lparr>token = cur, input = tokens_of_all cs @ EndElement # rest\<rparr> r"
      unfolding Text
      by (rule deserializeEvents_same_input) (simp add: readNextStartElement_def)
    then show ?thesis
      using Cons.IH [of cur r] by (simp add: Text)
  next
    case (Element n a gs)
    let ?more = "tokens_of_all cs @ EndElement # rest"
    have rd: "readNextStartElement
        \<lparr>token = cur, input = StartElement n a # tokens_of_all gs @ EndElement # ?more\<rparr>
        = (True, \<lparr>token = Some (StartElement n a),
                  input = tokens_of_all gs @ EndElement # ?more\<rparr>)"
      by (simp add: readNextStartElement_def)
    have nm: "xml_name \<lparr>token = Some (StartElement n a),
        input = tokens_of_all gs @ EndElement # ?more\<rparr> = n"
      by (simp add: xml_name_def)
    show ?thesis
    proof (cases "factory_of s_factories n")
      case None
      then have c: "createInstance s_factories now n = (None, [NoEventClass n])"
        by (simp add: createInstance_def factory_of_def)
      show ?thesis
        by (subst deserializeEvents.simps)
           (simp add: rd nm c None Element skipCurrentElement_children Cons.IH Let_def)
    next
      case (Some f)
      then have c: "createInstance s_factories now n = (Some (f now), [])"
        by (simp add: createInstance_def factory_of_def)
      show ?thesis
        by (subst deserializeEvents.simps)
           (simp add: rd nm c Some Element XmlReplayEvent_read_Element Cons.IH Let_def
              append_event_def constructed_event_def)
    qed
  qed
qed

lemma load_children_indices:
  "m_indices (load_children s_factories now cs r) = m_indices r"
  by (induction s_factories now cs r rule: load_children.induct)
     (simp_all add: append_event_def split: option.splits)

lemma load_children_events:
  "m_events (load_children s_factories now cs r) tag =
     (if events_named s_factories now tag cs = [] then m_events r tag
      else Some ((case m_events r tag of None \<Rightarrow> [] | Some es \<Rightarrow> es)
                 @ events_named s_factories now tag cs))"
proof (induction s_factories now cs r rule: load_children.induct)
  case (1 s_factories now r)
  show ?case by simp
next
  case (2 s_factories now t cs r)
  then show ?case by simp
next
  case (3 s_factories now n a gs cs r)
  show ?case
  proof (cases "factory_of s_factories n")
    case None
    show ?thesis
      using "3.IH"(1) [OF None] None by auto
  next
    case (Some f)
    show ?thesis
      using "3.IH"(2) [OF Some] Some
      by (auto simp: append_event_def)
  qed
qed

text \<open>The sections of a document: under the root, the children of every \<open>events\<close> element.\<close>

fun events_children :: "xml_node list \<Rightarrow> xml_node list" where
  "events_children [] = []"
| "events_children (Text t # tops) = events_children tops"
| "events_children (Element n a cs # tops) =
     (if n = ''events'' then cs else []) @ events_children tops"

fun sections_diagnostics :: "factories \<Rightarrow> xml_node list \<Rightarrow> diagnostic list" where
  "sections_diagnostics s_factories [] = []"
| "sections_diagnostics s_factories (Text t # tops) = sections_diagnostics s_factories tops"
| "sections_diagnostics s_factories (Element n a cs # tops) =
     (if n = ''events'' then children_diagnostics s_factories cs else [UnexpectedPayload n])
     @ sections_diagnostics s_factories tops"

lemma load_children_append:
  "load_children s_factories now (cs @ ds) r
     = load_children s_factories now ds (load_children s_factories now cs r)"
  by (induction s_factories now cs r rule: load_children.induct)
     (simp_all split: option.splits)

lemma deserialize_loop_same_input:
  "readNextStartElement xml = readNextStartElement xml' \<Longrightarrow>
   deserialize_loop s_factories fromString now xml r
     = deserialize_loop s_factories fromString now xml' r"
  by (subst deserialize_loop.simps, subst (2) deserialize_loop.simps) simp

lemma deserialize_loop_sections:
  "deserialize_loop s_factories fromString now
     \<lparr>token = cur, input = tokens_of_all tops @ EndElement # rest\<rparr> r
   = (\<lparr>token = Some EndElement, input = rest\<rparr>,
      load_children s_factories now (events_children tops) r,
      sections_diagnostics s_factories tops)"
proof (induction tops arbitrary: cur r)
  case Nil
  show ?case
    by (subst deserialize_loop.simps) (simp add: readNextStartElement_EndElement)
next
  case (Cons c tops)
  show ?case
  proof (cases c)
    case (Text t)
    have "deserialize_loop s_factories fromString now
        \<lparr>token = cur, input = tokens_of_all (c # tops) @ EndElement # rest\<rparr> r
        = deserialize_loop s_factories fromString now
            \<lparr>token = cur, input = tokens_of_all tops @ EndElement # rest\<rparr> r"
      unfolding Text
      by (rule deserialize_loop_same_input) (simp add: readNextStartElement_def)
    then show ?thesis
      using Cons.IH [of cur r] by (simp add: Text)
  next
    case (Element n a cs)
    let ?more = "tokens_of_all tops @ EndElement # rest"
    have rd: "readNextStartElement
        \<lparr>token = cur, input = StartElement n a # tokens_of_all cs @ EndElement # ?more\<rparr>
        = (True, \<lparr>token = Some (StartElement n a),
                  input = tokens_of_all cs @ EndElement # ?more\<rparr>)"
      by (simp add: readNextStartElement_def)
    have nm: "xml_name \<lparr>token = Some (StartElement n a),
        input = tokens_of_all cs @ EndElement # ?more\<rparr> = n"
      by (simp add: xml_name_def)
    show ?thesis
      by (subst deserialize_loop.simps)
         (simp add: rd nm Element deserializeEvents_children skipCurrentElement_children
            Cons.IH Let_def load_children_append)
  qed
qed

lemma XmlReplay_new_document:
  "XmlReplay_new s_factories fromString now
     (QXmlStreamReader (tokens_of (Element ''xmlreplay'' a0 tops)))
   = (load_children s_factories now (events_children tops)
        \<lparr>m_events = Map.empty, m_indices = Map.empty\<rparr>,
      sections_diagnostics s_factories tops)"
proof -
  have rd: "readNextStartElement
      \<lparr>token = None, input = StartElement ''xmlreplay'' a0 # tokens_of_all tops @ [EndElement]\<rparr>
      = (True, \<lparr>token = Some (StartElement ''xmlreplay'' a0),
                input = tokens_of_all tops @ [EndElement]\<rparr>)"
    by (simp add: readNextStartElement_def)
  show ?thesis
    using deserialize_loop_sections [of s_factories fromString now
        "Some (StartElement ''xmlreplay'' a0)" tops "[]"]
    by (simp add: XmlReplay_new_def deserialize_def QXmlStreamReader_def rd xml_name_def)
qed

lemma events_named_append:
  "events_named s_factories now tag (cs @ ds)
     = events_named s_factories now tag cs @ events_named s_factories now tag ds"
  by (induction s_factories now tag cs rule: events_named.induct) simp_all

lemma children_diagnostics_append:
  "children_diagnostics s_factories (cs @ ds)
     = children_diagnostics s_factories cs @ children_diagnostics s_factories ds"
  by (induction s_factories cs rule: children_diagnostics.induct) simp_all

lemma sections_diagnostics_children:
  "set (children_diagnostics s_factories (events_children tops))
     \<subseteq> set (sections_diagnostics s_factories tops)"
  by (induction s_factories tops rule: sections_diagnostics.induct)
     (auto simp: children_diagnostics_append)

lemma events_children_append:
  "events_children (tops @ tops') = events_children tops @ events_children tops'"
  by (induction tops rule: events_children.induct) simp_all

lemma sections_diagnostics_append:
  "sections_diagnostics s_factories (tops @ tops')
     = sections_diagnostics s_factories tops @ sections_diagnostics s_factories tops'"
  by (induction s_factories tops rule: sections_diagnostics.induct) simp_all

lemma XmlReplay_new_store:
  "fst (XmlReplay_new s_factories fromString now
          (QXmlStreamReader (tokens_of (Element ''xmlreplay'' a0 tops))))
     = \<lparr>m_events =
          (\<lambda>tag. if events_named s_factories now tag (events_children tops) = [] then None
                 else Some (events_named s_factories now tag (events_children tops))),
        m_indices = Map.empty\<rparr>"
proof -
  let ?r = "load_children s_factories now (events_children tops)
      \<lparr>m_events = Map.empty, m_indices = Map.empty\<rparr>"
  have ev: "m_events ?r =
      (\<lambda>tag. if events_named s_factories now tag (events_children tops) = [] then None
             else Some (events_named s_factories now tag (events_children tops)))"
    by (rule ext) (simp add: load_children_events)
  have ix: "m_indices ?r = Map.empty"
    by (simp add: load_children_indices)
  have "?r = \<lparr>m_events =
          (\<lambda>tag. if events_named s_factories now tag (events_children tops) = [] then None
                 else Some (events_named s_factories now tag (events_children tops))),
        m_indices = Map.empty\<rparr>"
    using ev ix by (cases ?r) simp
  then show ?thesis
    by (simp only: XmlReplay_new_document fst_conv)
qed

text \<open>
  A trace document: the root \<open>xmlreplay\<close>, and under it an events container with the
  given children, between whatever else the root holds.
\<close>

definition trace_document ::
  "xml_node list \<Rightarrow> xml_node list \<Rightarrow> xml_node list \<Rightarrow> xml_node" where
  "trace_document pre cs post =
     Element ''xmlreplay'' [] (pre @ Element ''events'' [] cs # post)"

text \<open>
  C6. A trace document loads without failing, whatever it holds: the store it gives
  has, for every tag, exactly the events of the registered children of that name in
  the events containers, each constructed by its factory and populated with its
  descriptors, in document order (no entry for a tag without any), with fresh cursors.
  An element of an unregistered name in the events container, with whatever subtree,
  is skipped: the diagnostic for it is emitted, and the store is the one the document
  without that element loads to, so the siblings before and after it are loaded as
  they are without it.
\<close>

theorem unregistered_element_skipped:
  "fst (XmlReplay_new s_factories fromString now
          (QXmlStreamReader (tokens_of (Element ''xmlreplay'' a0 tops))))
     = \<lparr>m_events =
          (\<lambda>tag. if events_named s_factories now tag (events_children tops) = [] then None
                 else Some (events_named s_factories now tag (events_children tops))),
        m_indices = Map.empty\<rparr>
   \<and> (factory_of s_factories n = None \<longrightarrow>
        fst (XmlReplay_new s_factories fromString now
               (QXmlStreamReader (tokens_of
                  (trace_document pre (before @ Element n a gs # after) post))))
          = fst (XmlReplay_new s_factories fromString now
                   (QXmlStreamReader (tokens_of (trace_document pre (before @ after) post))))
        \<and> NoEventClass n
          \<in> set (snd (XmlReplay_new s_factories fromString now
                (QXmlStreamReader (tokens_of
                   (trace_document pre (before @ Element n a gs # after) post))))))"
proof -
  have skipped: "factory_of s_factories n = None \<longrightarrow>
        fst (XmlReplay_new s_factories fromString now
               (QXmlStreamReader (tokens_of
                  (trace_document pre (before @ Element n a gs # after) post))))
          = fst (XmlReplay_new s_factories fromString now
                   (QXmlStreamReader (tokens_of (trace_document pre (before @ after) post))))
        \<and> NoEventClass n
          \<in> set (snd (XmlReplay_new s_factories fromString now
                (QXmlStreamReader (tokens_of
                   (trace_document pre (before @ Element n a gs # after) post)))))"
  proof
    assume unknown: "factory_of s_factories n = None"
    have same: "\<And>tag. events_named s_factories now tag
          (events_children (pre @ Element ''events'' [] (before @ Element n a gs # after) # post))
        = events_named s_factories now tag
            (events_children (pre @ Element ''events'' [] (before @ after) # post))"
      using unknown by (auto simp: events_children_append events_named_append)
    have store: "fst (XmlReplay_new s_factories fromString now
               (QXmlStreamReader (tokens_of
                  (trace_document pre (before @ Element n a gs # after) post))))
          = fst (XmlReplay_new s_factories fromString now
                   (QXmlStreamReader (tokens_of (trace_document pre (before @ after) post))))"
      unfolding trace_document_def XmlReplay_new_store same ..
    have diag: "NoEventClass n
          \<in> set (snd (XmlReplay_new s_factories fromString now
                (QXmlStreamReader (tokens_of
                   (trace_document pre (before @ Element n a gs # after) post)))))"
      unfolding trace_document_def XmlReplay_new_document snd_conv
      by (simp add: sections_diagnostics_append children_diagnostics_append unknown)
    from store diag show "fst (XmlReplay_new s_factories fromString now
               (QXmlStreamReader (tokens_of
                  (trace_document pre (before @ Element n a gs # after) post))))
          = fst (XmlReplay_new s_factories fromString now
                   (QXmlStreamReader (tokens_of (trace_document pre (before @ after) post))))
        \<and> NoEventClass n
          \<in> set (snd (XmlReplay_new s_factories fromString now
                (QXmlStreamReader (tokens_of
                   (trace_document pre (before @ Element n a gs # after) post)))))"
      by (rule conjI)
  qed
  from XmlReplay_new_store skipped show ?thesis
    by (rule conjI)
qed

text \<open>
  A recorded enumeration with one port, one without ports, and between them an element
  of a name no class is registered for.
\<close>

definition element_one_port :: xml_node where
  "element_one_port =
     Element ''getAvailablePorts'' [(''time'', ''2020-05-01T10:00:00.000+02:00'')]
       [Element ''serial'' [(''portName'', ''COM1'')] []]"

definition element_no_port :: xml_node where
  "element_no_port =
     Element ''getAvailablePorts'' [(''time'', ''2020-05-01T10:00:01.000+02:00'')] []"

definition element_unregistered :: xml_node where
  "element_unregistered =
     Element ''openPort'' [(''time'', ''2020-05-01T10:00:00.500+02:00'')]
       [Element ''serial'' [(''portName'', ''COM1'')] [], Text ''x'']"

lemma factory_of_registered:
  "factory_of registered_factories tag =
     (if tag = ''getAvailablePorts'' then Some GetAvailablePortsEvent_createInstance else None)"
  by (simp add: factory_of_def registered_factories_eq GetAvailablePortsEvent_TAG_def)

theorem unregistered_element_skipped_witness:
  "fst (XmlReplay_new registered_factories (\<lambda>s. 0) 5
          (QXmlStreamReader (tokens_of
             (trace_document []
                ([element_one_port]
                 @ Element ''openPort'' [(''time'', ''2020-05-01T10:00:00.500+02:00'')]
                     [Element ''serial'' [(''portName'', ''COM1'')] [], Text ''x'']
                 # [element_no_port]) []))))
     = fst (XmlReplay_new registered_factories (\<lambda>s. 0) 5
              (QXmlStreamReader (tokens_of
                 (trace_document [] ([element_one_port] @ [element_no_port]) []))))
   \<and> NoEventClass ''openPort''
       \<in> set (snd (XmlReplay_new registered_factories (\<lambda>s. 0) 5
            (QXmlStreamReader (tokens_of
               (trace_document []
                  ([element_one_port]
                   @ Element ''openPort'' [(''time'', ''2020-05-01T10:00:00.500+02:00'')]
                       [Element ''serial'' [(''portName'', ''COM1'')] [], Text ''x'']
                   # [element_no_port]) [])))))
   \<and> m_events (fst (XmlReplay_new registered_factories (\<lambda>s. 0) 5
          (QXmlStreamReader (tokens_of
             (Element ''xmlreplay'' []
                [Element ''events'' []
                   [element_one_port, element_unregistered, element_no_port]])))))
        ''getAvailablePorts''
     = Some [\<lparr>m_time = 5, m_ports = [\<lparr>m_info = [''portName'' \<mapsto> VString ''COM1'']\<rparr>]\<rparr>,
             \<lparr>m_time = 5, m_ports = []\<rparr>]"
proof -
  have unknown: "factory_of registered_factories ''openPort'' = None"
    by (simp add: factory_of_registered)
  note inst = unregistered_element_skipped
    [of registered_factories "\<lambda>s. 0" 5 "[]"
        "[Element ''events'' [] [element_one_port, element_unregistered, element_no_port]]"
        "''openPort''" "[]" "[element_one_port]"
        "[(''time'', ''2020-05-01T10:00:00.500+02:00'')]"
        "[Element ''serial'' [(''portName'', ''COM1'')] [], Text ''x'']"
        "[element_no_port]" "[]"]
  have skipped: "fst (XmlReplay_new registered_factories (\<lambda>s. 0) 5
          (QXmlStreamReader (tokens_of
             (trace_document []
                ([element_one_port]
                 @ Element ''openPort'' [(''time'', ''2020-05-01T10:00:00.500+02:00'')]
                     [Element ''serial'' [(''portName'', ''COM1'')] [], Text ''x'']
                 # [element_no_port]) []))))
     = fst (XmlReplay_new registered_factories (\<lambda>s. 0) 5
              (QXmlStreamReader (tokens_of
                 (trace_document [] ([element_one_port] @ [element_no_port]) []))))
   \<and> NoEventClass ''openPort''
       \<in> set (snd (XmlReplay_new registered_factories (\<lambda>s. 0) 5
            (QXmlStreamReader (tokens_of
               (trace_document []
                  ([element_one_port]
                   @ Element ''openPort'' [(''time'', ''2020-05-01T10:00:00.500+02:00'')]
                       [Element ''serial'' [(''portName'', ''COM1'')] [], Text ''x'']
                   # [element_no_port]) [])))))"
    using conjunct2 [OF inst] unknown by (rule mp)
  have stored: "m_events (fst (XmlReplay_new registered_factories (\<lambda>s. 0) 5
          (QXmlStreamReader (tokens_of
             (Element ''xmlreplay'' []
                [Element ''events'' []
                   [element_one_port, element_unregistered, element_no_port]])))))
        ''getAvailablePorts''
     = Some [\<lparr>m_time = 5, m_ports = [\<lparr>m_info = [''portName'' \<mapsto> VString ''COM1'']\<rparr>]\<rparr>,
             \<lparr>m_time = 5, m_ports = []\<rparr>]"
    unfolding conjunct1 [OF inst]
    by (simp add: element_one_port_def element_unregistered_def element_no_port_def
        factory_of_registered constructed_event_def descriptors_of_def
        GetAvailablePortsEvent_createInstance_def set_info_def SerialPortInfo_null_def)
  from skipped stored show ?thesis
    by (simp only: conj_assoc) 
qed

section \<open>Writing a descriptor and reading it back\<close>

lemma parse_digits_append:
  "parse_digits b acc (xs @ ys) =
     (case parse_digits b acc xs of None \<Rightarrow> None | Some acc' \<Rightarrow> parse_digits b acc' ys)"
  by (induction xs arbitrary: acc) (simp_all split: option.splits)

lemma digit_value_upper:
  "d < 16 \<Longrightarrow> digit_value (char_toUpper (digit_char d)) = Some d"
  by (auto simp: digit_value_def char_toUpper_def digit_char_def Let_def)

lemma space_no_digit: "is_space c \<Longrightarrow> digit_value c = None"
  by (auto simp: is_space_def digit_value_def)

lemma upper_digit_not_space:
  "d < 16 \<Longrightarrow> \<not> is_space (char_toUpper (digit_char d))"
  using space_no_digit [of "char_toUpper (digit_char d)"] digit_value_upper [of d]
  by auto

lemma digits_of_nonempty: "digits_of b n \<noteq> []"
  by (subst digits_of.simps) simp

lemma last_digits_of: "last (digits_of 16 n) = digit_char (n mod 16)"
  by (subst digits_of.simps) simp

lemma parse_upper_digits:
  "parse_digits 16 0 (toUpper (digits_of 16 n)) = Some n"
proof (induction "16 :: nat" n rule: digits_of.induct)
  case (1 n)
  show ?case
  proof (cases "n < 16")
    case True
    then show ?thesis
      by (subst digits_of.simps) (simp add: toUpper_def digit_value_upper)
  next
    case False
    then have ih: "parse_digits 16 0 (toUpper (digits_of 16 (n div 16))) = Some (n div 16)"
      using 1 by simp
    have "digits_of 16 n = digits_of 16 (n div 16) @ [digit_char (n mod 16)]"
      using False by (subst digits_of.simps) simp
    then have "parse_digits 16 0 (toUpper (digits_of 16 n))
        = parse_digits 16 (n div 16) [char_toUpper (digit_char (n mod 16))]"
      using ih by (simp add: toUpper_def parse_digits_append)
    also have "\<dots> = Some (n div 16 * 16 + n mod 16)"
      by (simp add: digit_value_upper)
    finally show ?thesis by simp
  qed
qed

lemma trimmed_no_space:
  assumes "s \<noteq> []" and "\<not> is_space (hd s)" and "\<not> is_space (last s)"
  shows "trimmed s = s"
proof -
  from assms(1,2) have at_front: "dropWhile is_space s = s"
    by (cases s) simp_all
  from assms(1,3) have at_end: "dropWhile is_space (rev s) = rev s"
    by (cases "rev s") (simp_all add: hd_rev)
  show ?thesis
    by (simp add: trimmed_def at_front at_end)
qed

lemma toUInt0_hex:
  assumes "n < 2 ^ 32"
  shows "QString_toUInt0 (hex (int n)) = Some n"
proof -
  let ?ds = "toUpper (digits_of 16 n)"
  have h: "hex (int n) = CHR ''0'' # CHR ''x'' # ?ds"
    by (simp add: hex_def QString_number16_def)
  have ne: "?ds \<noteq> []"
    by (simp add: toUpper_def digits_of_nonempty)
  have "last (CHR ''0'' # CHR ''x'' # ?ds) = char_toUpper (digit_char (n mod 16))"
    using ne by (simp add: toUpper_def last_map digits_of_nonempty last_digits_of)
  then have "\<not> is_space (last (CHR ''0'' # CHR ''x'' # ?ds))"
    by (simp add: upper_digit_not_space)
  moreover have "\<not> is_space (hd (CHR ''0'' # CHR ''x'' # ?ds))"
    by (simp add: is_space_def)
  ultimately have t: "trimmed (CHR ''0'' # CHR ''x'' # ?ds) = CHR ''0'' # CHR ''x'' # ?ds"
    by (intro trimmed_no_space) simp_all
  show ?thesis
    using assms ne
    by (simp add: QString_toUInt0_def h t parse_number_def parse_upper_digits Let_def)
qed

lemma toUInt0_hex_word:
  "QString_toUInt0 (hex (uint (w :: 16 word))) = Some (unat w)"
proof -
  have "unat w < 2 ^ 16"
    using unsigned_less [of w, where ?'a = nat] by simp
  also have "(2 :: nat) ^ 16 < 2 ^ 32"
    by simp
  finally have small: "unat w < 2 ^ 32" .
  have same: "int (unat w) = uint w"
    by simp
  from toUInt0_hex [OF small] show ?thesis
    by (simp only: same)
qed

text \<open>The attributes that \<open>operator<<\<close> writes for a descriptor, and the element they make.\<close>

definition serial_attributes :: "SerialPortInfo \<Rightarrow> (QString \<times> QString) list" where
  "serial_attributes info =
     (if isNull info then []
      else [(''portName'', portName info), (''systemLocation'', systemLocation info),
            (''description'', description info), (''manufacturer'', manufacturer info),
            (''serialNumber'', serialNumber info)]
           @ (if hasVendorIdentifier info
              then [(''vendorIdentifier'', hex (uint (vendorIdentifier info)))] else [])
           @ (if hasProductIdentifier info
              then [(''productIdentifier'', hex (uint (productIdentifier info)))] else []))"

definition serial_element :: "SerialPortInfo \<Rightarrow> xml_node" where
  "serial_element info = Element ''serial'' (serial_attributes info) []"

definition event_element :: "(QDateTime \<Rightarrow> QString) \<Rightarrow> GetAvailablePortsEvent \<Rightarrow> xml_node" where
  "event_element toString event =
     Element GetAvailablePortsEvent_TAG [(''time'', toString (m_time event))]
       (map serial_element (m_ports event))"

lemma SerialPortInfo_write_eq:
  "SerialPortInfo_write info xml = xml @ tokens_of (serial_element info)"
  by (simp add: SerialPortInfo_write_def serial_element_def serial_attributes_def
      writeStartElement_def writeEndElement_def writeAttribute_last Let_def)

lemma QList_write_eq:
  "QList_write list xml = xml @ tokens_of_all (map serial_element list)"
  by (induction list arbitrary: xml) (simp_all add: SerialPortInfo_write_eq)

lemma XmlReplayEvent_write_eq:
  "XmlReplayEvent_write toString event xml = xml @ tokens_of (event_element toString event)"
  using writeAttribute_last [of "''time''" "toString (m_time event)" xml
      GetAvailablePortsEvent_TAG "[]"]
  by (simp add: XmlReplayEvent_write_def event_element_def writeStartElement_def
      writeEndElement_def GetAvailablePortsEvent_write_def QList_write_eq Let_def)

text \<open>
  The descriptors that the constructor from a \<open>QSerialPortInfo\<close> makes, and that the
  data model of the spec describes: the empty bag, or a bag with a string under each of
  the five string keys, at most a 16-bit integer under each of the two identifier keys,
  and no other key.
\<close>

definition string_keys :: "QString list" where
  "string_keys = [''portName'', ''systemLocation'', ''description'', ''manufacturer'',
     ''serialNumber'']"

definition identifier_keys :: "QString list" where
  "identifier_keys = [''vendorIdentifier'', ''productIdentifier'']"

definition is_string_value :: "QVariant option \<Rightarrow> bool" where
  "is_string_value v = (case v of Some (VString s) \<Rightarrow> True | _ \<Rightarrow> False)"

definition is_identifier_value :: "QVariant option \<Rightarrow> bool" where
  "is_identifier_value v =
     (case v of None \<Rightarrow> True | Some (VInt i) \<Rightarrow> 0 \<le> i \<and> i < 65536 | Some (VString s) \<Rightarrow> False)"

definition well_formed_descriptor :: "SerialPortInfo \<Rightarrow> bool" where
  "well_formed_descriptor info =
     (isNull info
      \<or> (list_all (\<lambda>k. is_string_value (m_info info k)) string_keys
         \<and> list_all (\<lambda>k. is_identifier_value (m_info info k)) identifier_keys
         \<and> dom (m_info info) \<subseteq> set string_keys \<union> set identifier_keys))"

lemma well_formed_null: "well_formed_descriptor SerialPortInfo_null"
  by (simp add: well_formed_descriptor_def isNull_def SerialPortInfo_null_def)

lemma uint16_range: "0 \<le> uint (w :: 16 word) \<and> uint w < 65536"
  using uint_lt2p [of w] by simp

lemma well_formed_live: "well_formed_descriptor (SerialPortInfo_of q)"
  by (simp add: well_formed_descriptor_def SerialPortInfo_of_def set_info_def
      SerialPortInfo_null_def isNull_def string_keys_def identifier_keys_def
      is_string_value_def is_identifier_value_def uint16_range Let_def)

lemma is_string_value_toString:
  "is_string_value v \<Longrightarrow> Some (VString (QVariant_toString v)) = v"
  by (auto simp: is_string_value_def QVariant_toString_def split: option.splits QVariant.splits)

lemma is_identifier_value_uint:
  "is_identifier_value (Some q) \<Longrightarrow> Some (VInt (uint (QVariant_toUInt16 (Some q)))) = Some q"
  by (auto simp: is_identifier_value_def QVariant_toUInt16_def uint_word_of_int
      split: QVariant.splits)

lemma stored_value_string:
  "\<not> is_identifier_name k \<Longrightarrow> stored_value k v = Some (VString v)"
  by (simp add: stored_value_def)

lemma stored_value_hex:
  "is_identifier_name k \<Longrightarrow>
   stored_value k (hex (uint (w :: 16 word))) = Some (VInt (uint w))"
  by (simp add: stored_value_def toUInt0_hex_word)

lemma read_back_well_formed:
  assumes "well_formed_descriptor info"
  shows "read_attributes (serial_attributes info) SerialPortInfo_null = (info, [])"
proof (cases "isNull info")
  case True
  then have "info = SerialPortInfo_null"
    by (cases info) (simp add: isNull_def SerialPortInfo_null_def)
  then show ?thesis
    using True by (simp add: serial_attributes_def)
next
  case False
  let ?as = "serial_attributes info"
  from assms False have strings: "list_all (\<lambda>k. is_string_value (m_info info k)) string_keys"
    and ids: "list_all (\<lambda>k. is_identifier_value (m_info info k)) identifier_keys"
    and keys: "dom (m_info info) \<subseteq> set string_keys \<union> set identifier_keys"
    by (simp_all add: well_formed_descriptor_def)
  have dist: "distinct (map fst ?as)"
    by (simp add: serial_attributes_def False)
  have no_diag: "snd (read_attributes ?as SerialPortInfo_null) = []"
    by (simp add: read_attributes_diagnostics serial_attributes_def False
        is_identifier_name_def toUInt0_hex_word)
  have bag: "m_info (fst (read_attributes ?as SerialPortInfo_null)) k = m_info info k" for k
  proof -
    have rd: "m_info (fst (read_attributes ?as SerialPortInfo_null)) k =
        (case map_of ?as k of None \<Rightarrow> None | Some v \<Rightarrow> stored_value k v)"
      using read_attributes_info [OF dist, of SerialPortInfo_null k]
      by (simp add: SerialPortInfo_null_def split: option.splits)
    consider (str) "k \<in> set string_keys" | (vid) "k = ''vendorIdentifier''"
      | (pid) "k = ''productIdentifier''"
      | (other) "k \<notin> set string_keys \<union> set identifier_keys"
      by (auto simp: identifier_keys_def)
    then show ?thesis
    proof cases
      case str
      then have sv: "is_string_value (m_info info k)"
        using strings by (simp add: list_all_iff)
      from str have "map_of ?as k = Some (QVariant_toString (m_info info k))"
        by (auto simp: serial_attributes_def False string_keys_def portName_def
            systemLocation_def description_def manufacturer_def serialNumber_def)
      moreover from str have "\<not> is_identifier_name k"
        by (auto simp: string_keys_def is_identifier_name_def)
      ultimately show ?thesis
        using is_string_value_toString [OF sv] by (simp add: rd stored_value_string)
    next
      case vid
      have iv: "is_identifier_value (m_info info ''vendorIdentifier'')"
        using ids by (simp add: identifier_keys_def)
      show ?thesis
      proof (cases "m_info info ''vendorIdentifier''")
        case None
        then have "map_of ?as k = None"
          by (simp add: vid serial_attributes_def False hasVendorIdentifier_def dom_def)
        then show ?thesis
          unfolding rd by (simp add: vid None)
      next
        case (Some q)
        then have "map_of ?as k = Some (hex (uint (QVariant_toUInt16 (Some q))))"
          by (simp add: vid serial_attributes_def False hasVendorIdentifier_def dom_def
              vendorIdentifier_def)
        then show ?thesis
          unfolding rd using is_identifier_value_uint [of q] iv Some
          by (simp add: vid stored_value_hex is_identifier_name_def)
      qed
    next
      case pid
      have iv: "is_identifier_value (m_info info ''productIdentifier'')"
        using ids by (simp add: identifier_keys_def)
      show ?thesis
      proof (cases "m_info info ''productIdentifier''")
        case None
        then have "map_of ?as k = None"
          by (simp add: pid serial_attributes_def False hasProductIdentifier_def dom_def)
        then show ?thesis
          unfolding rd by (simp add: pid None)
      next
        case (Some q)
        then have "map_of ?as k = Some (hex (uint (QVariant_toUInt16 (Some q))))"
          by (simp add: pid serial_attributes_def False hasProductIdentifier_def dom_def
              productIdentifier_def)
        then show ?thesis
          unfolding rd using is_identifier_value_uint [of q] iv Some
          by (simp add: pid stored_value_hex is_identifier_name_def)
      qed
    next
      case other
      then have "m_info info k = None"
        using keys by (auto simp: dom_def)
      moreover from other have "map_of ?as k = None"
        by (auto simp: serial_attributes_def False string_keys_def identifier_keys_def)
      ultimately show ?thesis
        by (simp add: rd)
    qed
  qed
  have "fst (read_attributes ?as SerialPortInfo_null) = info"
    using bag by (cases info, cases "fst (read_attributes ?as SerialPortInfo_null)") auto
  with no_diag show ?thesis
    by (simp add: prod_eq_iff)
qed

lemma descriptors_of_serial_elements:
  "list_all well_formed_descriptor list \<Longrightarrow>
   descriptors_of (map serial_element list) = list
   \<and> descriptor_diagnostics (map serial_element list) = []"
  by (induction list)
     (simp_all add: descriptors_of_def descriptor_diagnostics_def serial_element_def
        read_back_well_formed)

lemma recorded_trace_tokens:
  "epilogue (XmlReplayEvent_write toString event (prologue []))
     = tokens_of (Element ''xmlreplay'' []
         [Element ''events'' [] [event_element toString event]])"
  by (simp add: epilogue_def prologue_def XmlReplayEvent_write_eq writeStartElement_def
      writeEndElement_def)

lemma event_written_then_started:
  "readNextStartElement (QXmlStreamReader (XmlReplayEvent_write toString event []))
     = (True, \<lparr>token = Some (StartElement GetAvailablePortsEvent_TAG
                   [(''time'', toString (m_time event))]),
               input = tokens_of_all (map serial_element (m_ports event)) @ EndElement # []\<rparr>)"
  using readNextStartElement_Element [of None GetAvailablePortsEvent_TAG
      "[(''time'', toString (m_time event))]" "map serial_element (m_ports event)" "[]"]
  by (simp add: XmlReplayEvent_write_eq QXmlStreamReader_def event_element_def)

lemma event_written_then_read:
  "fst (readNextStartElement (QXmlStreamReader (XmlReplayEvent_write toString event [])))
     = True"
  "xml_name (snd (readNextStartElement
       (QXmlStreamReader (XmlReplayEvent_write toString event []))))
     = GetAvailablePortsEvent_TAG"
  "XmlReplayEvent_read fromString now
     (snd (readNextStartElement (QXmlStreamReader (XmlReplayEvent_write toString event []))))
     event0
   = (\<lparr>token = Some EndElement, input = []\<rparr>,
      event0\<lparr>m_ports := descriptors_of (map serial_element (m_ports event))\<rparr>,
      descriptor_diagnostics (map serial_element (m_ports event)))"
  by (simp_all add: event_written_then_started XmlReplayEvent_read_Element xml_name_def
      hasAttribute_def)

text \<open>
  The payload of a round trip. An event whose descriptors are all well formed (null, or
  the five string attributes with at most the two 16-bit identifiers and nothing else,
  as the data model has them and the live enumeration makes them) is written as one
  element; reading that element into a newly constructed event gives the same list of
  descriptors, equal element by element under \<open>operator==\<close>, and no diagnostic. The
  same holds through a whole trace: the recording of the event, once closed, loads to a
  store that holds for \<open>getAvailablePorts\<close> one event with that list.
\<close>

lemma well_formed_event_round_trip:
  assumes "list_all well_formed_descriptor (m_ports event)"
  shows "(let written = XmlReplayEvent_write toString event [];
              (started, xml) = readNextStartElement (QXmlStreamReader written);
              (xml', event', ds) =
                 XmlReplayEvent_read fromString now xml
                   (GetAvailablePortsEvent_createInstance now)
          in started \<and> xml_name xml = GetAvailablePortsEvent_TAG
             \<and> m_ports event' = m_ports event
             \<and> list_all2 SerialPortInfo_eq (m_ports event') (m_ports event)
             \<and> ds = [])
         \<and> map m_ports (stored_ports_events
              (fst (XmlReplay_new registered_factories fromString now
                 (QXmlStreamReader
                    (epilogue (XmlReplayEvent_write toString event (prologue [])))))))
            = [m_ports event]"
proof -
  note read_back = descriptors_of_serial_elements [OF assms]
  have same: "list_all2 SerialPortInfo_eq (m_ports event) (m_ports event)"
    by (simp add: list_all2_same SerialPortInfo_eq_def)
  have event_level: "(let written = XmlReplayEvent_write toString event [];
              (started, xml) = readNextStartElement (QXmlStreamReader written);
              (xml', event', ds) =
                 XmlReplayEvent_read fromString now xml
                   (GetAvailablePortsEvent_createInstance now)
          in started \<and> xml_name xml = GetAvailablePortsEvent_TAG
             \<and> m_ports event' = m_ports event
             \<and> list_all2 SerialPortInfo_eq (m_ports event') (m_ports event)
             \<and> ds = [])"
    using same read_back by (simp add: Let_def split_def event_written_then_read)
  have "events_named registered_factories now GetAvailablePortsEvent_TAG
      [event_element toString event]
      = [\<lparr>m_time = now, m_ports = m_ports event\<rparr>]"
    using read_back
    by (simp add: event_element_def factory_of_registered GetAvailablePortsEvent_TAG_def
        constructed_event_def GetAvailablePortsEvent_createInstance_def)
  moreover have "m_events (fst (XmlReplay_new registered_factories fromString now
        (QXmlStreamReader (epilogue (XmlReplayEvent_write toString event (prologue []))))))
        GetAvailablePortsEvent_TAG
      = (if events_named registered_factories now GetAvailablePortsEvent_TAG
              (events_children [Element ''events'' [] [event_element toString event]]) = []
         then None
         else Some (events_named registered_factories now GetAvailablePortsEvent_TAG
              (events_children [Element ''events'' [] [event_element toString event]])))"
    unfolding recorded_trace_tokens XmlReplay_new_store by simp
  ultimately have trace_level: "map m_ports (stored_ports_events
              (fst (XmlReplay_new registered_factories fromString now
                 (QXmlStreamReader
                    (epilogue (XmlReplayEvent_write toString event (prologue [])))))))
            = [m_ports event]"
    by (simp add: stored_ports_events_def)
  from event_level trace_level show ?thesis
    by (rule conjI)
qed

lemma well_formed_event_round_trip_instance:
  "(let event = \<lparr>m_time = 1000, m_ports = [SerialPortInfo_of q_usb0, SerialPortInfo_null]\<rparr>;
        written = XmlReplayEvent_write (\<lambda>t. ''T'') event [];
        (started, xml) = readNextStartElement (QXmlStreamReader written);
        (xml', event', ds) =
           XmlReplayEvent_read (\<lambda>s. 0) 2000 xml (GetAvailablePortsEvent_createInstance 2000)
    in started \<and> m_ports event' = [SerialPortInfo_of q_usb0, SerialPortInfo_null] \<and> ds = [])"
proof -
  have wf: "list_all well_formed_descriptor
      (m_ports \<lparr>m_time = 1000, m_ports = [SerialPortInfo_of q_usb0, SerialPortInfo_null]\<rparr>)"
    by (simp add: well_formed_live well_formed_null)
  from conjunct1 [OF well_formed_event_round_trip [OF wf, of "\<lambda>t. ''T''" "\<lambda>s. 0" 2000]]
  show ?thesis
    by (simp add: Let_def split_def)
qed

text \<open>
  C4. The round trip of the registered variant brings the payload back, as shown
  above, and not the time. The writer puts the time of the event into the \<open>time\<close>
  attribute of the element; the reader parses the attribute and drops the result, so
  the event that comes back has the time at which it was constructed for the load,
  whatever time was written and however Qt prints and parses it. The same holds
  through a whole trace, recorded and loaded. At an event of time 1000 read back at
  time 2000 the two differ by a second, far beyond a millisecond.
\<close>

theorem round_trip_time_is_load_time:
  "attributes (snd (readNextStartElement
      (QXmlStreamReader (XmlReplayEvent_write toString event []))))
     = [(''time'', toString (m_time event))]
   \<and> m_time (fst (snd (XmlReplayEvent_read fromString now
        (snd (readNextStartElement
           (QXmlStreamReader (XmlReplayEvent_write toString event []))))
        (GetAvailablePortsEvent_createInstance now)))) = now
   \<and> map m_time (stored_ports_events
        (fst (XmlReplay_new registered_factories fromString now
           (QXmlStreamReader
              (epilogue (XmlReplayEvent_write toString event (prologue [])))))))
      = [now]
   \<and> m_time (fst (snd (XmlReplayEvent_read fromString 2000
        (snd (readNextStartElement
           (QXmlStreamReader (XmlReplayEvent_write toString
              \<lparr>m_time = 1000, m_ports = [SerialPortInfo_of q_usb0]\<rparr> []))))
        (GetAvailablePortsEvent_createInstance 2000)))) = 2000"
proof -
  have written: "attributes (snd (readNextStartElement
      (QXmlStreamReader (XmlReplayEvent_write toString event []))))
     = [(''time'', toString (m_time event))]"
    by (simp add: event_written_then_started attributes_def)
  have read: "m_time (fst (snd (XmlReplayEvent_read fromString t
        (snd (readNextStartElement
           (QXmlStreamReader (XmlReplayEvent_write toString e []))))
        (GetAvailablePortsEvent_createInstance t)))) = t" for t e
    by (simp add: event_written_then_read GetAvailablePortsEvent_createInstance_def)
  have "map m_time (events_named registered_factories now GetAvailablePortsEvent_TAG
      [event_element toString event]) = [now]"
    by (simp add: event_element_def factory_of_registered GetAvailablePortsEvent_TAG_def
        constructed_event_def GetAvailablePortsEvent_createInstance_def)
  moreover have "m_events (fst (XmlReplay_new registered_factories fromString now
        (QXmlStreamReader (epilogue (XmlReplayEvent_write toString event (prologue []))))))
        GetAvailablePortsEvent_TAG
      = (if events_named registered_factories now GetAvailablePortsEvent_TAG
              (events_children [Element ''events'' [] [event_element toString event]]) = []
         then None
         else Some (events_named registered_factories now GetAvailablePortsEvent_TAG
              (events_children [Element ''events'' [] [event_element toString event]])))"
    unfolding recorded_trace_tokens XmlReplay_new_store by simp
  ultimately have loaded: "map m_time (stored_ports_events
        (fst (XmlReplay_new registered_factories fromString now
           (QXmlStreamReader
              (epilogue (XmlReplayEvent_write toString event (prologue [])))))))
      = [now]"
    by (auto simp: stored_ports_events_def)
  from written read [of now event] loaded
    read [of 2000 "\<lparr>m_time = 1000, m_ports = [SerialPortInfo_of q_usb0]\<rparr>"]
  show ?thesis
    by (intro conjI)
qed

section \<open>Replaying a short trace\<close>

lemma loaded_store_fresh:
  "cursor (fst (XmlReplay_new s_factories fromString now
       (QXmlStreamReader (tokens_of (Element ''xmlreplay'' a0 tops))))) tag = 0"
  "stored_ports_events (fst (XmlReplay_new s_factories fromString now
       (QXmlStreamReader (tokens_of (Element ''xmlreplay'' a0 tops)))))
     = events_named s_factories now GetAvailablePortsEvent_TAG (events_children tops)"
  unfolding XmlReplay_new_store
  by (simp_all add: cursor_def stored_ports_events_def)

text \<open>
  C1. Under an active replay whose store holds \<open>N\<close> events for \<open>getAvailablePorts\<close>
  and has handed none out yet, the results of any run of calls are: the stored lists
  of ports in document order for the first \<open>N\<close> calls; for every later call, the list
  of the \<open>N\<close>-th (last) stored event when \<open>N > 0\<close>, and the list the manager had cached
  before the run when \<open>N = 0\<close>, which is the empty list when no call was made before.
  What the ports attached at each call are, and the clock, have no part in it. The
  store loaded from a trace document is such a store, and its events are those of the
  document's registered \<open>getAvailablePorts\<close> elements in document order.
\<close>

theorem getAvailablePorts_exhaustion_fallback:
  "(m_replay mgr = Some r \<and> cursor r GetAvailablePortsEvent_TAG = 0 \<longrightarrow>
      fst (getAvailablePorts_calls toString calls mgr) =
        map m_ports (take (length calls) (stored_ports_events r))
        @ replicate (length calls - length (stored_ports_events r))
            (if stored_ports_events r = [] then m_serialPorts mgr
             else m_ports (last (stored_ports_events r)))
      \<and> (stored_ports_events r = [] \<and> m_serialPorts mgr = [] \<longrightarrow>
           fst (getAvailablePorts_calls toString calls mgr) = replicate (length calls) []))
   \<and> (m_replay mgr = Some (fst (XmlReplay_new s_factories fromString now
          (QXmlStreamReader (tokens_of (Element ''xmlreplay'' a0 tops))))) \<longrightarrow>
      fst (getAvailablePorts_calls toString calls mgr) =
        map m_ports (take (length calls)
          (events_named s_factories now GetAvailablePortsEvent_TAG (events_children tops)))
        @ replicate
            (length calls
             - length (events_named s_factories now GetAvailablePortsEvent_TAG
                 (events_children tops)))
            (if events_named s_factories now GetAvailablePortsEvent_TAG
                  (events_children tops) = []
             then m_serialPorts mgr
             else m_ports (last (events_named s_factories now GetAvailablePortsEvent_TAG
                    (events_children tops)))))"
proof -
  have run: "fst (getAvailablePorts_calls toString calls mgr) =
           map m_ports (take (length calls) (stored_ports_events r'))
           @ replicate (length calls - length (stored_ports_events r'))
               (if stored_ports_events r' = [] then m_serialPorts mgr
                else m_ports (last (stored_ports_events r')))"
    if "m_replay mgr = Some r'" and "cursor r' GetAvailablePortsEvent_TAG = 0" for r'
    using getAvailablePorts_calls_replay [OF that refl, of toString calls] by simp
  have store: "m_replay mgr = Some r \<and> cursor r GetAvailablePortsEvent_TAG = 0 \<longrightarrow>
      fst (getAvailablePorts_calls toString calls mgr) =
        map m_ports (take (length calls) (stored_ports_events r))
        @ replicate (length calls - length (stored_ports_events r))
            (if stored_ports_events r = [] then m_serialPorts mgr
             else m_ports (last (stored_ports_events r)))
      \<and> (stored_ports_events r = [] \<and> m_serialPorts mgr = [] \<longrightarrow>
           fst (getAvailablePorts_calls toString calls mgr) = replicate (length calls) [])"
    using run [of r] by simp
  have document: "m_replay mgr = Some (fst (XmlReplay_new s_factories fromString now
          (QXmlStreamReader (tokens_of (Element ''xmlreplay'' a0 tops))))) \<longrightarrow>
      fst (getAvailablePorts_calls toString calls mgr) =
        map m_ports (take (length calls)
          (events_named s_factories now GetAvailablePortsEvent_TAG (events_children tops)))
        @ replicate
            (length calls
             - length (events_named s_factories now GetAvailablePortsEvent_TAG
                 (events_children tops)))
            (if events_named s_factories now GetAvailablePortsEvent_TAG
                  (events_children tops) = []
             then m_serialPorts mgr
             else m_ports (last (events_named s_factories now GetAvailablePortsEvent_TAG
                    (events_children tops))))"
  proof
    assume active: "m_replay mgr = Some (fst (XmlReplay_new s_factories fromString now
          (QXmlStreamReader (tokens_of (Element ''xmlreplay'' a0 tops)))))"
    from run [OF active loaded_store_fresh(1)]
    show "fst (getAvailablePorts_calls toString calls mgr) =
        map m_ports (take (length calls)
          (events_named s_factories now GetAvailablePortsEvent_TAG (events_children tops)))
        @ replicate
            (length calls
             - length (events_named s_factories now GetAvailablePortsEvent_TAG
                 (events_children tops)))
            (if events_named s_factories now GetAvailablePortsEvent_TAG
                  (events_children tops) = []
             then m_serialPorts mgr
             else m_ports (last (events_named s_factories now GetAvailablePortsEvent_TAG
                    (events_children tops))))"
      by (simp only: loaded_store_fresh(2))
  qed
  from store document show ?thesis
    by (rule conjI)
qed

theorem getAvailablePorts_exhaustion_fallback_witness:
  "fst (getAvailablePorts_calls (\<lambda>t. [])
          [(10, []), (20, [q_usb0]), (30, []), (40, [q_com1])]
          (DeviceConnectionManager_new\<lparr>m_replay := Some store_two\<rparr>))
     = [[SerialPortInfo_of q_usb0], [SerialPortInfo_of q_com1],
        [SerialPortInfo_of q_com1], [SerialPortInfo_of q_com1]]
   \<and> fst (getAvailablePorts_calls (\<lambda>t. [])
          [(10, [q_usb0]), (20, [q_com1])]
          (DeviceConnectionManager_new\<lparr>m_replay := Some store_none\<rparr>))
     = [[], []]
   \<and> fst (getAvailablePorts_calls (\<lambda>t. [])
          [(10, [q_usb0]), (20, []), (30, [])]
          (DeviceConnectionManager_new\<lparr>m_replay := Some
             (fst (XmlReplay_new registered_factories (\<lambda>s. 0) 5
                (QXmlStreamReader (tokens_of (Element ''xmlreplay'' []
                   [Element ''events'' []
                      [element_one_port, element_unregistered, element_no_port]])))))\<rparr>))
     = [[\<lparr>m_info = [''portName'' \<mapsto> VString ''COM1'']\<rparr>], [], []]"
proof -
  have two: "stored_ports_events store_two = [event_usb0, event_com1]"
    by (simp add: stored_ports_events_def store_two_def GetAvailablePortsEvent_TAG_def)
  have none: "stored_ports_events store_none = []"
    by (simp add: stored_ports_events_def store_none_def)
  have fresh_two: "cursor store_two GetAvailablePortsEvent_TAG = 0"
    by (simp add: store_two_def cursor_def)
  have fresh_none: "cursor store_none GetAvailablePortsEvent_TAG = 0"
    by (simp add: store_none_def cursor_def)
  have first: "fst (getAvailablePorts_calls (\<lambda>t. [])
          [(10, []), (20, [q_usb0]), (30, []), (40, [q_com1])]
          (DeviceConnectionManager_new\<lparr>m_replay := Some store_two\<rparr>))
     = [[SerialPortInfo_of q_usb0], [SerialPortInfo_of q_com1],
        [SerialPortInfo_of q_com1], [SerialPortInfo_of q_com1]]"
    using conjunct1 [OF getAvailablePorts_exhaustion_fallback
        [where mgr = "DeviceConnectionManager_new\<lparr>m_replay := Some store_two\<rparr>"
           and r = store_two and toString = "\<lambda>t. []"
           and calls = "[(10, []), (20, [q_usb0]), (30, []), (40, [q_com1])]"]]
      fresh_two
    by (simp add: two event_usb0_def event_com1_def)
  have second: "fst (getAvailablePorts_calls (\<lambda>t. [])
          [(10, [q_usb0]), (20, [q_com1])]
          (DeviceConnectionManager_new\<lparr>m_replay := Some store_none\<rparr>))
     = [[], []]"
    using conjunct1 [OF getAvailablePorts_exhaustion_fallback
        [where mgr = "DeviceConnectionManager_new\<lparr>m_replay := Some store_none\<rparr>"
           and r = store_none and toString = "\<lambda>t. []"
           and calls = "[(10, [q_usb0]), (20, [q_com1])]"]]
      fresh_none
    by (simp add: none DeviceConnectionManager_new_def)
  have third: "fst (getAvailablePorts_calls (\<lambda>t. [])
          [(10, [q_usb0]), (20, []), (30, [])]
          (DeviceConnectionManager_new\<lparr>m_replay := Some
             (fst (XmlReplay_new registered_factories (\<lambda>s. 0) 5
                (QXmlStreamReader (tokens_of (Element ''xmlreplay'' []
                   [Element ''events'' []
                      [element_one_port, element_unregistered, element_no_port]])))))\<rparr>))
     = [[\<lparr>m_info = [''portName'' \<mapsto> VString ''COM1'']\<rparr>], [], []]"
    using conjunct2 [OF getAvailablePorts_exhaustion_fallback
        [where mgr = "DeviceConnectionManager_new\<lparr>m_replay := Some
             (fst (XmlReplay_new registered_factories (\<lambda>s. 0) 5
                (QXmlStreamReader (tokens_of (Element ''xmlreplay'' []
                   [Element ''events'' []
                      [element_one_port, element_unregistered, element_no_port]])))))\<rparr>"
           and s_factories = registered_factories and fromString = "\<lambda>s. 0" and now = 5
           and ?a0.0 = "[]"
           and tops = "[Element ''events'' []
                [element_one_port, element_unregistered, element_no_port]]"
           and toString = "\<lambda>t. []" and calls = "[(10, [q_usb0]), (20, []), (30, [])]"]]
    by (simp add: element_one_port_def element_unregistered_def element_no_port_def
        factory_of_registered GetAvailablePortsEvent_TAG_def constructed_event_def
        descriptors_of_def GetAvailablePortsEvent_createInstance_def set_info_def
        SerialPortInfo_null_def)
  from first second third show ?thesis
    by simp
qed

end
